theory Spec2Isabelle
  imports Complex_Main
begin

section \<open>Line-follower control loop and telemetry recorder (prog.py)\<close>

text \<open>
  The embedding follows \<^verbatim>\<open>prog.py\<close>. Python floats are idealised as \<^typ>\<open>real\<close>
  (no rounding, no infinities, no NaN), Python integers are \<^typ>\<open>int\<close>. Every
  exception the program can raise is a value of \<open>py_error\<close>; a procedure that mutates
  the global recorder, the robot or the network returns the new state next to its
  result, also when it raises, because the rows written before an exception stay
  written. Console output is not modelled.
\<close>

subsection \<open>Exceptions and arithmetic that can raise\<close>

datatype py_error = AssertionError | IndexError | ZeroDivisionError | IntegrityError

text \<open>Python's \<^verbatim>\<open>a / b\<close> on numbers: raises when the divisor is zero.\<close>

definition truediv :: "real \<Rightarrow> real \<Rightarrow> py_error + real" where
  "truediv a b = (if b = 0 then Inl ZeroDivisionError else Inr (a / b))"

text \<open>Python's \<^verbatim>\<open>xs[i]\<close> for an index that is never negative here.\<close>

definition getitem :: "'a list \<Rightarrow> nat \<Rightarrow> py_error + 'a" where
  "getitem xs i = (if i < length xs then Inr (xs ! i) else Inl IndexError)"

text \<open>
  \<^verbatim>\<open>random.uniform(a, b)\<close> is \<^verbatim>\<open>a + (b - a) * random()\<close>; the value \<open>u\<close> that
  \<^verbatim>\<open>random()\<close> returned (in \<open>[0, 1)\<close>) is an input of the model.
\<close>

definition uniform :: "real \<Rightarrow> real \<Rightarrow> real \<Rightarrow> real" where
  "uniform a b u = a + (b - a) * u"

subsection \<open>PIDController\<close>

record PIDController =
  kp :: real
  ki :: real
  kd :: real
  prev_error :: real
  integral :: real

definition PIDController_init :: "real \<Rightarrow> real \<Rightarrow> real \<Rightarrow> PIDController" where
  "PIDController_init p i d = \<lparr>kp = p, ki = i, kd = d, prev_error = 0, integral = 0\<rparr>"

text \<open>
  \<^verbatim>\<open>update(self, error, dt=0.1)\<close>. The integral is updated before the division, so
  a zero \<open>dt\<close> raises with the integral already assigned (to its old value plus
  \<open>error * 0\<close>).
\<close>

definition PIDController_update ::
  "real \<Rightarrow> real \<Rightarrow> PIDController \<Rightarrow> (py_error + real) \<times> PIDController" where
  "PIDController_update error dt p =
     (let p1 = p\<lparr>integral := integral p + error * dt\<rparr> in
      case truediv (error - prev_error p1) dt of
        Inl e \<Rightarrow> (Inl e, p1)
      | Inr derivative \<Rightarrow>
          (let output = kp p1 * error + ki p1 * integral p1 + kd p1 * derivative;
               p2 = p1\<lparr>prev_error := error\<rparr>
           in (Inr (max (- 1) (min 1 output)), p2)))"

subsection \<open>IRLineSensor\<close>

record IRLineSensor =
  sensor_n :: int
  white :: "real list"
  black :: "real list"

definition IRLineSensor_init :: "int \<Rightarrow> IRLineSensor" where
  "IRLineSensor_init n_sensors =
     \<lparr>sensor_n = n_sensors,
      white = replicate (nat n_sensors) 1,
      black = replicate (nat n_sensors) 0\<rparr>"

text \<open>
  One pass of the loop of \<^verbatim>\<open>calibrate\<close> for channel \<open>i\<close>; \<open>rnd (2 * i)\<close> and
  \<open>rnd (2 * i + 1)\<close> are the two values drawn for the channel. The right-hand side
  \<^verbatim>\<open>white_levels[i]\<close> is read before the store into \<^verbatim>\<open>self.white[i]\<close>.
\<close>

definition calibrate_channel ::
  "real list \<Rightarrow> real list \<Rightarrow> (nat \<Rightarrow> real) \<Rightarrow> nat \<Rightarrow> IRLineSensor \<Rightarrow> py_error option \<times> IRLineSensor" where
  "calibrate_channel white_levels black_levels rnd i s =
     (let noise_w = uniform (- 0.05) 0 (rnd (2 * i));
          noise_b = uniform 0 0.05 (rnd (2 * i + 1))
      in case getitem white_levels i of
           Inl e \<Rightarrow> (Some e, s)
         | Inr wl \<Rightarrow>
             if \<not> i < length (white s) then (Some IndexError, s)
             else
               (let s1 = s\<lparr>white := (white s)[i := min 1 (max 0 (wl + noise_w))]\<rparr> in
                case getitem black_levels i of
                  Inl e \<Rightarrow> (Some e, s1)
                | Inr bl \<Rightarrow>
                    if \<not> i < length (black s1) then (Some IndexError, s1)
                    else (None, s1\<lparr>black := (black s1)[i := min 1 (max 0 (bl + noise_b))]\<rparr>)))"

fun calibrate_loop ::
  "real list \<Rightarrow> real list \<Rightarrow> (nat \<Rightarrow> real) \<Rightarrow> nat list \<Rightarrow> IRLineSensor \<Rightarrow> py_error option \<times> IRLineSensor" where
  "calibrate_loop white_levels black_levels rnd [] s = (None, s)"
| "calibrate_loop white_levels black_levels rnd (i # is) s =
     (case calibrate_channel white_levels black_levels rnd i s of
        (Some e, s1) \<Rightarrow> (Some e, s1)
      | (None, s1) \<Rightarrow> calibrate_loop white_levels black_levels rnd is s1)"

definition IRLineSensor_calibrate ::
  "real list \<Rightarrow> real list \<Rightarrow> (nat \<Rightarrow> real) \<Rightarrow> IRLineSensor \<Rightarrow> py_error option \<times> IRLineSensor" where
  "IRLineSensor_calibrate white_levels black_levels rnd s =
     calibrate_loop white_levels black_levels rnd [0..<nat (sensor_n s)] s"

text \<open>
  The body of the loop of \<^verbatim>\<open>read_normalized\<close>: \<^verbatim>\<open>self.white[i]\<close> and
  \<^verbatim>\<open>self.black[i]\<close> are read first, then \<^verbatim>\<open>raw_values[i]\<close>, then the quotient is
  taken and clamped.
\<close>

definition normalize_channel :: "IRLineSensor \<Rightarrow> real list \<Rightarrow> nat \<Rightarrow> py_error + real" where
  "normalize_channel s raw_values i =
     (case getitem (white s) i of
        Inl e \<Rightarrow> Inl e
      | Inr w \<Rightarrow>
          (case getitem (black s) i of
             Inl e \<Rightarrow> Inl e
           | Inr b \<Rightarrow>
               (case getitem raw_values i of
                  Inl e \<Rightarrow> Inl e
                | Inr r \<Rightarrow>
                    (case truediv (r - b) (w - b + 1 / 1000000) of
                       Inl e \<Rightarrow> Inl e
                     | Inr v \<Rightarrow> Inr (max 0 (min 1 v))))))"

fun normalize_loop :: "IRLineSensor \<Rightarrow> real list \<Rightarrow> nat list \<Rightarrow> real list \<Rightarrow> py_error + real list" where
  "normalize_loop s raw_values [] result = Inr result"
| "normalize_loop s raw_values (i # is) result =
     (case normalize_channel s raw_values i of
        Inl e \<Rightarrow> Inl e
      | Inr v \<Rightarrow> normalize_loop s raw_values is (result @ [v]))"

definition read_normalized :: "IRLineSensor \<Rightarrow> real list \<Rightarrow> py_error + real list" where
  "read_normalized s raw_values = normalize_loop s raw_values [0..<nat (sensor_n s)] []"

subsection \<open>TrackState\<close>

text \<open>\<^verbatim>\<open>avg = sum(normalized_values) / len(normalized_values)\<close>\<close>

definition TrackState_avg :: "real list \<Rightarrow> py_error + real" where
  "TrackState_avg normalized_values =
     truediv (sum_list normalized_values) (real (length normalized_values))"

definition TrackState_update :: "real list \<Rightarrow> py_error + bool" where
  "TrackState_update normalized_values =
     (case TrackState_avg normalized_values of
        Inl e \<Rightarrow> Inl e
      | Inr avg \<Rightarrow> Inr (0.2 \<le> avg \<and> avg \<le> 0.8))"

subsection \<open>The lateral position error of follow_line\<close>

text \<open>
  \<^verbatim>\<open>position = sum((i - (n - 1)/2) * (1 - norm[i]) for i in range(n))\<close>, with
  \<open>n = self.sensor.n\<close>.
\<close>

fun position_terms :: "int \<Rightarrow> real list \<Rightarrow> nat list \<Rightarrow> py_error + real list" where
  "position_terms n nrm [] = Inr []"
| "position_terms n nrm (i # is) =
     (case getitem nrm i of
        Inl e \<Rightarrow> Inl e
      | Inr v \<Rightarrow>
          (case position_terms n nrm is of
             Inl e \<Rightarrow> Inl e
           | Inr ts \<Rightarrow> Inr ((real i - (real_of_int n - 1) / 2) * (1 - v) # ts)))"

definition position :: "int \<Rightarrow> real list \<Rightarrow> py_error + real" where
  "position n nrm =
     (case position_terms n nrm [0..<nat n] of
        Inl e \<Rightarrow> Inl e
      | Inr ts \<Rightarrow> Inr (sum_list ts))"

text \<open>
  \<^verbatim>\<open>error = position / ((n - 1)/2) if (n - 1) != 0 else 0.0\<close>
\<close>

definition lateral_error :: "int \<Rightarrow> real list \<Rightarrow> py_error + real" where
  "lateral_error n nrm =
     (case position n nrm of
        Inl e \<Rightarrow> Inl e
      | Inr pos \<Rightarrow>
          if n - 1 \<noteq> 0 then truediv pos ((real_of_int n - 1) / 2) else Inr 0)"

subsection \<open>TelemetryLogger\<close>

text \<open>
  The four tables of \<^verbatim>\<open>init_schema\<close>. The rows of a table are kept in insertion
  order; the autoincremented row ids of the three append-only tables are the positions
  in the list and are not stored. A timestamp is the reading of a clock.
\<close>

record session_row =
  s_id :: int
  s_variant_id :: int
  s_started_at :: nat
  s_ended_at :: "nat option"
  s_status :: string

record sensor_row =
  r_session_id :: int
  r_sensor_type :: string
  r_timestamp :: nat
  r_value :: real
  r_unit :: string

record command_row =
  c_session_id :: int
  c_actuator_type :: string
  c_timestamp :: nat
  c_command :: real
  c_status :: string

text \<open>
  The message of an event is built from a fixed template and at most one argument; the
  constructor names the template (the texts are Russian sentences in the source).
\<close>

datatype message =
    CalibrationDone
  | ServerUnreachable
  | ScenarioStart string
  | ScenarioStartLocal string
  | OffTrackAtStep nat
  | ScenarioEnd nat
  | ScenarioException py_error

record event_row =
  e_session_id :: int
  e_timestamp :: nat
  e_event_type :: string
  e_severity :: string
  e_message :: message

text \<open>
  The recorder: \<open>conn\<close> is \<^verbatim>\<open>self._conn is not None\<close>, \<open>session_id\<close> is the
  active-session binding, the four tables are the database behind the connection and
  \<open>clock\<close> is what \<^verbatim>\<open>datetime.utcnow()\<close> returns next; every statement that reads
  the time advances it.
\<close>

record TelemetryLogger =
  conn :: bool
  session_id :: "int option"
  sessions :: "session_row list"
  sensor_readings :: "sensor_row list"
  actuator_commands :: "command_row list"
  events :: "event_row list"
  clock :: nat

text \<open>
  \<^verbatim>\<open>cur.lastrowid\<close> of an insert into a table whose key is \<^verbatim>\<open>INTEGER PRIMARY KEY\<close>:
  1 for an empty table, otherwise one more than the largest key.
\<close>

definition lastrowid :: "session_row list \<Rightarrow> int" where
  "lastrowid rows = (case rows of [] \<Rightarrow> 1 | r # rs \<Rightarrow> fold max (map s_id rs) (s_id r) + 1)"

text \<open>The foreign key \<^verbatim>\<open>session_id REFERENCES sessions(id)\<close>, enforced by the pragma.\<close>

definition references_session :: "TelemetryLogger \<Rightarrow> int \<Rightarrow> bool" where
  "references_session t sid = (sid \<in> set (map s_id (sessions t)))"

definition start_session :: "int \<Rightarrow> TelemetryLogger \<Rightarrow> py_error + int \<times> TelemetryLogger" where
  "start_session variant_id t =
     (if \<not> conn t then Inl AssertionError
      else
        (let ts = clock t;
             new = lastrowid (sessions t);
             row = \<lparr>s_id = new, s_variant_id = variant_id, s_started_at = ts,
                    s_ended_at = None, s_status = ''running''\<rparr>
         in Inr (new, t\<lparr>sessions := sessions t @ [row], session_id := Some new,
                         clock := Suc ts\<rparr>)))"

text \<open>
  \<^verbatim>\<open>UPDATE sessions SET ended_at=?, status=? WHERE id=?\<close>. The \<^verbatim>\<open>CHECK\<close> on the
  status is evaluated for the rows the statement changes.
\<close>

definition end_session :: "string \<Rightarrow> TelemetryLogger \<Rightarrow> py_error + TelemetryLogger" where
  "end_session status t =
     (case session_id t of
        None \<Rightarrow> Inl AssertionError
      | Some sid \<Rightarrow>
          if \<not> conn t then Inl AssertionError
          else if references_session t sid
                  \<and> status \<notin> set [''running'', ''completed'', ''error''] then Inl IntegrityError
          else
            (let ts = clock t in
             Inr (t\<lparr>sessions :=
                       map (\<lambda>r. if s_id r = sid then r\<lparr>s_ended_at := Some ts, s_status := status\<rparr>
                                 else r) (sessions t),
                     clock := Suc ts\<rparr>)))"

definition log_sensor :: "string \<Rightarrow> real \<Rightarrow> string \<Rightarrow> TelemetryLogger \<Rightarrow> py_error + TelemetryLogger" where
  "log_sensor sensor_type val unit t =
     (case session_id t of
        None \<Rightarrow> Inl AssertionError
      | Some sid \<Rightarrow>
          if \<not> conn t then Inl AssertionError
          else if \<not> references_session t sid then Inl IntegrityError
          else
            (let ts = clock t in
             Inr (t\<lparr>sensor_readings := sensor_readings t @
                       [\<lparr>r_session_id = sid, r_sensor_type = sensor_type, r_timestamp = ts,
                         r_value = val, r_unit = unit\<rparr>],
                     clock := Suc ts\<rparr>)))"

definition log_command :: "string \<Rightarrow> real \<Rightarrow> string \<Rightarrow> TelemetryLogger \<Rightarrow> py_error + TelemetryLogger" where
  "log_command actuator_type command status t =
     (case session_id t of
        None \<Rightarrow> Inl AssertionError
      | Some sid \<Rightarrow>
          if \<not> conn t then Inl AssertionError
          else if \<not> references_session t sid then Inl IntegrityError
          else
            (let ts = clock t in
             Inr (t\<lparr>actuator_commands := actuator_commands t @
                       [\<lparr>c_session_id = sid, c_actuator_type = actuator_type, c_timestamp = ts,
                         c_command = command, c_status = status\<rparr>],
                     clock := Suc ts\<rparr>)))"

definition log_event :: "string \<Rightarrow> string \<Rightarrow> message \<Rightarrow> TelemetryLogger \<Rightarrow> py_error + TelemetryLogger" where
  "log_event event_type severity msg t =
     (case session_id t of
        None \<Rightarrow> Inl AssertionError
      | Some sid \<Rightarrow>
          if \<not> conn t then Inl AssertionError
          else if \<not> references_session t sid
                  \<or> severity \<notin> set [''info'', ''warning'', ''error''] then Inl IntegrityError
          else
            (let ts = clock t in
             Inr (t\<lparr>events := events t @
                       [\<lparr>e_session_id = sid, e_timestamp = ts, e_event_type = event_type,
                         e_severity = severity, e_message = msg\<rparr>],
                     clock := Suc ts\<rparr>)))"

definition VARIANT_ID :: int where
  "VARIANT_ID = 1"

subsection \<open>The remote sink\<close>

text \<open>
  Every \<^verbatim>\<open>requests.post\<close> the program issues is appended to the list of posts. The
  answer to the request that creates the session is an input: no answer at all (the
  call raised: connection refused, timeout), or an answer with its \<^verbatim>\<open>ok\<close> flag and
  the \<^verbatim>\<open>id\<close> of its body (\<open>None\<close> when the body has none, which raises inside the
  \<^verbatim>\<open>try\<close>, or a null one). The answers to the other requests are ignored by the
  program.
\<close>

datatype http_request =
    POST_sessions int
  | POST_sensors int string real string
  | POST_actuators int string real string
  | POST_events int string string message
  | POST_end int string

datatype remote_reply = NoReply | Reply bool "int option"

definition http_create_session :: "remote_reply \<Rightarrow> http_request list \<Rightarrow> int option \<times> http_request list" where
  "http_create_session reply ps =
     (case reply of
        NoReply \<Rightarrow> None
      | Reply ok body_id \<Rightarrow> if ok then body_id else None,
      ps @ [POST_sessions VARIANT_ID])"

definition http_log_sensor :: "int option \<Rightarrow> string \<Rightarrow> real \<Rightarrow> string \<Rightarrow> http_request list \<Rightarrow> http_request list" where
  "http_log_sensor sid sensor_type val unit ps =
     (case sid of None \<Rightarrow> ps | Some i \<Rightarrow> ps @ [POST_sensors i sensor_type val unit])"

definition http_log_actuator :: "int option \<Rightarrow> string \<Rightarrow> real \<Rightarrow> string \<Rightarrow> http_request list \<Rightarrow> http_request list" where
  "http_log_actuator sid actuator_type command status ps =
     (case sid of None \<Rightarrow> ps | Some i \<Rightarrow> ps @ [POST_actuators i actuator_type command status])"

definition http_log_event :: "int option \<Rightarrow> string \<Rightarrow> string \<Rightarrow> message \<Rightarrow> http_request list \<Rightarrow> http_request list" where
  "http_log_event sid event_type severity msg ps =
     (case sid of None \<Rightarrow> ps | Some i \<Rightarrow> ps @ [POST_events i event_type severity msg])"

definition http_end_session :: "int option \<Rightarrow> string \<Rightarrow> http_request list \<Rightarrow> http_request list" where
  "http_end_session sid status ps =
     (case sid of None \<Rightarrow> ps | Some i \<Rightarrow> ps @ [POST_end i status])"

subsection \<open>The program state and sequencing\<close>

text \<open>
  What a run reads and writes: the robot's sensor array and controller, the global
  recorder \<^verbatim>\<open>telemetry\<close>, and the requests sent to the remote collector. The last
  field is not a variable of the program: \<open>calls\<close> is the journal of the calls made
  to the methods of the recorder, each entry the name of the method and the sessions
  table as the call left it, so that the number and the order of the calls of a run
  can be stated.
\<close>

record state =
  sensor :: IRLineSensor
  pid :: PIDController
  telemetry :: TelemetryLogger
  posts :: "http_request list"
  calls :: "(string \<times> session_row list) list"

text \<open>
  \<^verbatim>\<open>LineFollowerRobot(n_sensors)\<close> beside a recorder and the requests sent so far, with
  an empty journal.
\<close>

definition LineFollowerRobot_init :: "int \<Rightarrow> TelemetryLogger \<Rightarrow> http_request list \<Rightarrow> state" where
  "LineFollowerRobot_init n_sensors t ps =
     \<lparr>sensor = IRLineSensor_init n_sensors,
      pid = PIDController_init 0.8 0.0 0.2,
      telemetry = t,
      posts = ps,
      calls = []\<rparr>"

text \<open>
  A statement either raises (\<open>Inl\<close>) or yields a value (\<open>Inr\<close>), and leaves a state
  in both cases. \<open>and_then\<close> runs the rest of a block after a statement that did not
  raise.
\<close>

definition and_then ::
  "(py_error + 'a) \<times> state \<Rightarrow> ('a \<Rightarrow> state \<Rightarrow> (py_error + 'b) \<times> state) \<Rightarrow> (py_error + 'b) \<times> state" where
  "and_then r f = (case r of (Inl e, s) \<Rightarrow> (Inl e, s) | (Inr x, s) \<Rightarrow> f x s)"

text \<open>
  A call of the method \<open>name\<close> of the global recorder, entered in the journal
  whether it raises or not.
\<close>

definition tel ::
  "string \<Rightarrow> (TelemetryLogger \<Rightarrow> py_error + TelemetryLogger) \<Rightarrow> state \<Rightarrow> (py_error + unit) \<times> state" where
  "tel name f s =
     (case f (telemetry s) of
        Inl e \<Rightarrow> (Inl e, s\<lparr>calls := calls s @ [(name, sessions (telemetry s))]\<rparr>)
      | Inr t \<Rightarrow> (Inr (), s\<lparr>telemetry := t, calls := calls s @ [(name, sessions t)]\<rparr>))"

text \<open>A call of \<^verbatim>\<open>telemetry.start_session\<close>, which returns the id of the new session.\<close>

definition tel_start_session :: "int \<Rightarrow> state \<Rightarrow> (py_error + int) \<times> state" where
  "tel_start_session variant_id s =
     (case start_session variant_id (telemetry s) of
        Inl e \<Rightarrow> (Inl e, s\<lparr>calls := calls s @ [(''start_session'', sessions (telemetry s))]\<rparr>)
      | Inr (sid, t) \<Rightarrow>
          (Inr sid, s\<lparr>telemetry := t, calls := calls s @ [(''start_session'', sessions t)]\<rparr>))"

text \<open>A call of one of the \<^verbatim>\<open>http_log_*\<close> functions, which never raise.\<close>

definition net :: "(http_request list \<Rightarrow> http_request list) \<Rightarrow> state \<Rightarrow> (py_error + unit) \<times> state" where
  "net f s = (Inr (), s\<lparr>posts := f (posts s)\<rparr>)"

subsection \<open>MotorPair\<close>

definition MotorPair_drive :: "real \<Rightarrow> real \<Rightarrow> state \<Rightarrow> (py_error + real \<times> real) \<times> state" where
  "MotorPair_drive base_speed diff s =
     (let left = max (- 1) (min 1 (base_speed - diff));
          right = max (- 1) (min 1 (base_speed + diff))
      in and_then (tel ''log_command'' (log_command ''Motor_L'' left ''sent'') s) (\<lambda>_ s.
         and_then (tel ''log_command'' (log_command ''Motor_R'' right ''sent'') s) (\<lambda>_ s.
           (Inr (left, right), s))))"

subsection \<open>LineFollowerRobot\<close>

text \<open>\<^verbatim>\<open>str\<close> of a natural number, for \<^verbatim>\<open>f"IR_{i+1}"\<close>.\<close>

fun str_nat :: "nat \<Rightarrow> string" where
  "str_nat k = (if k < 10 then [char_of (48 + k)] else str_nat (k div 10) @ [char_of (48 + k mod 10)])"

declare str_nat.simps [simp del]

text \<open>The unit label of the readings, a four-letter Cyrillic word, as its UTF-8 bytes.\<close>

definition unit_norm :: string where
  "unit_norm = [char_of (0xD0::nat), char_of (0xBD::nat), char_of (0xD0::nat), char_of (0xBE::nat),
                char_of (0xD1::nat), char_of (0x80::nat), char_of (0xD0::nat), char_of (0xBC::nat)]"

text \<open>
  \<^verbatim>\<open>calibrate(self)\<close>: a local session around one calibration pass with reference
  levels 1.0 and 0.0; \<open>rnd\<close> gives the values drawn by the pass.
\<close>

definition calibrate :: "(nat \<Rightarrow> real) \<Rightarrow> state \<Rightarrow> (py_error + unit) \<times> state" where
  "calibrate rnd s =
     and_then (tel_start_session VARIANT_ID s) (\<lambda>sid s.
       (let wh = replicate (nat (sensor_n (sensor s))) 1;
            bl = replicate (nat (sensor_n (sensor s))) 0
        in case IRLineSensor_calibrate wh bl rnd (sensor s) of
             (Some e, sen) \<Rightarrow> (Inl e, s\<lparr>sensor := sen\<rparr>)
           | (None, sen) \<Rightarrow>
               and_then (tel ''log_event'' (log_event ''calibration'' ''info'' CalibrationDone)
                           (s\<lparr>sensor := sen\<rparr>)) (\<lambda>_ s.
                 tel ''end_session'' (end_session ''completed'') s)))"

text \<open>
  The loop over \<^verbatim>\<open>enumerate(norm)\<close> of a step: each reading goes to the local sink,
  then to the remote one.
\<close>

fun log_sensors :: "int option \<Rightarrow> nat \<Rightarrow> real list \<Rightarrow> state \<Rightarrow> (py_error + unit) \<times> state" where
  "log_sensors remote_session_id i [] s = (Inr (), s)"
| "log_sensors remote_session_id i (val # vals) s =
     (let name = ''IR_'' @ str_nat (i + 1) in
      case tel ''log_sensor'' (log_sensor name val unit_norm) s of
        (Inl e, s1) \<Rightarrow> (Inl e, s1)
      | (Inr _, s1) \<Rightarrow>
          (case net (http_log_sensor remote_session_id name val unit_norm) s1 of
             (Inl e, s2) \<Rightarrow> (Inl e, s2)
           | (Inr _, s2) \<Rightarrow> log_sensors remote_session_id (Suc i) vals s2))"

text \<open>\<^verbatim>\<open>self.pid.update(error)\<close> on the controller of the state, with the default \<open>dt\<close>.\<close>

definition pid_step :: "real \<Rightarrow> state \<Rightarrow> (py_error + real) \<times> state" where
  "pid_step error s =
     (case PIDController_update error 0.1 (pid s) of (r, p) \<Rightarrow> (r, s\<lparr>pid := p\<rparr>))"

text \<open>
  The body of the loop of \<^verbatim>\<open>follow_line\<close> for the frame \<open>raw\<close> of step \<open>step\<close>;
  \<open>u j\<close> is the value drawn for channel \<open>j\<close> of the frame, and the pair of counters
  is \<open>(on_track_count, off_track_count)\<close>.
\<close>

definition follow_line_step ::
  "int option \<Rightarrow> (nat \<Rightarrow> real) \<Rightarrow> nat \<Rightarrow> real list \<Rightarrow> nat \<times> nat \<Rightarrow> state \<Rightarrow> (py_error + nat \<times> nat) \<times> state" where
  "follow_line_step remote_session_id u step raw counts s =
     (let noisy = map (\<lambda>(j, v). max 0 (min 1 (v + uniform (- 0.05) 0.05 (u j)))) (enumerate 0 raw) in
      and_then (read_normalized (sensor s) noisy, s) (\<lambda>nrm s.
      and_then (log_sensors remote_session_id 0 nrm s) (\<lambda>_ s.
      and_then (lateral_error (sensor_n (sensor s)) nrm, s) (\<lambda>error s.
      and_then (pid_step error s) (\<lambda>pid_out s.
      and_then (TrackState_update nrm, s) (\<lambda>on_track s.
      and_then
        (if on_track then (Inr (Suc (fst counts), snd counts), s)
         else
           and_then (tel ''log_event'' (log_event ''line_tracking'' ''warning'' (OffTrackAtStep step)) s) (\<lambda>_ s.
           and_then (net (http_log_event remote_session_id ''line_tracking'' ''warning'' (OffTrackAtStep step)) s) (\<lambda>_ s.
             (Inr (fst counts, Suc (snd counts)), s)))) (\<lambda>counts s.
      and_then (MotorPair_drive 0.5 pid_out s) (\<lambda>(left, right) s.
      and_then (net (http_log_actuator remote_session_id ''Motor_L'' left ''sent'') s) (\<lambda>_ s.
      and_then (net (http_log_actuator remote_session_id ''Motor_R'' right ''sent'') s) (\<lambda>_ s.
        (Inr counts, s)))))))))))"

text \<open>
  \<^verbatim>\<open>for step, raw in enumerate(measurements, 1)\<close>; \<open>rnd step\<close> gives the values drawn
  in step \<open>step\<close>.
\<close>

fun follow_line_loop ::
  "int option \<Rightarrow> (nat \<Rightarrow> nat \<Rightarrow> real) \<Rightarrow> nat \<Rightarrow> real list list \<Rightarrow> nat \<times> nat \<Rightarrow> state \<Rightarrow> (py_error + nat \<times> nat) \<times> state" where
  "follow_line_loop remote_session_id rnd step [] counts s = (Inr counts, s)"
| "follow_line_loop remote_session_id rnd step (raw # rest) counts s =
     (case follow_line_step remote_session_id (rnd step) step raw counts s of
        (Inl e, s1) \<Rightarrow> (Inl e, s1)
      | (Inr counts1, s1) \<Rightarrow> follow_line_loop remote_session_id rnd (Suc step) rest counts1 s1)"

text \<open>The statements of \<^verbatim>\<open>follow_line\<close> before the \<^verbatim>\<open>try\<close>; the value is the remote id.\<close>

definition follow_line_entry :: "string \<Rightarrow> remote_reply \<Rightarrow> state \<Rightarrow> (py_error + int option) \<times> state" where
  "follow_line_entry label reply s =
     and_then (tel_start_session VARIANT_ID s) (\<lambda>session_id s.
       (let (remote_session_id, ps) = http_create_session reply (posts s);
            s = s\<lparr>posts := ps\<rparr>
        in and_then
             (if remote_session_id = None
              then tel ''log_event'' (log_event ''server'' ''warning'' ServerUnreachable) s
              else net (http_log_event remote_session_id ''scenario_start'' ''info'' (ScenarioStart label)) s) (\<lambda>_ s.
           and_then (tel ''log_event'' (log_event ''scenario_start_local'' ''info'' (ScenarioStartLocal label)) s) (\<lambda>_ s.
             (Inr remote_session_id, s)))))"

text \<open>The block under \<^verbatim>\<open>try\<close>.\<close>

definition follow_line_try ::
  "int option \<Rightarrow> (nat \<Rightarrow> nat \<Rightarrow> real) \<Rightarrow> real list list \<Rightarrow> state \<Rightarrow> (py_error + unit) \<times> state" where
  "follow_line_try remote_session_id rnd measurements s =
     and_then (follow_line_loop remote_session_id rnd 1 measurements (0, 0) s) (\<lambda>counts s.
     and_then (tel ''log_event'' (log_event ''scenario_end'' ''info'' (ScenarioEnd (snd counts))) s) (\<lambda>_ s.
     and_then (net (http_log_event remote_session_id ''scenario_end'' ''info'' (ScenarioEnd (snd counts))) s) (\<lambda>_ s.
     and_then (tel ''end_session'' (end_session ''completed'') s) (\<lambda>_ s.
       net (http_end_session remote_session_id ''completed'') s))))"

text \<open>The block under \<^verbatim>\<open>except Exception as e\<close>.\<close>

definition follow_line_except :: "int option \<Rightarrow> py_error \<Rightarrow> state \<Rightarrow> (py_error + unit) \<times> state" where
  "follow_line_except remote_session_id e s =
     and_then (tel ''log_event'' (log_event ''exception'' ''error'' (ScenarioException e)) s) (\<lambda>_ s.
     and_then (net (http_log_event remote_session_id ''exception'' ''error'' (ScenarioException e)) s) (\<lambda>_ s.
     and_then (tel ''end_session'' (end_session ''error'') s) (\<lambda>_ s.
       net (http_end_session remote_session_id ''error'') s)))"

definition follow_line ::
  "real list list \<Rightarrow> string \<Rightarrow> remote_reply \<Rightarrow> (nat \<Rightarrow> nat \<Rightarrow> real) \<Rightarrow> state \<Rightarrow> (py_error + unit) \<times> state" where
  "follow_line measurements label reply rnd s =
     and_then (follow_line_entry label reply s) (\<lambda>remote_session_id s.
       case follow_line_try remote_session_id rnd measurements s of
         (Inl e, s1) \<Rightarrow> follow_line_except remote_session_id e s1
       | (Inr u, s1) \<Rightarrow> (Inr u, s1))"

text \<open>The draws of a run of \<^verbatim>\<open>random()\<close> that returns 0.0 every time.\<close>

definition zero_draws :: "nat \<Rightarrow> real" where
  "zero_draws k = 0"

text \<open>
  The recorder is usable for the session \<open>sid\<close>: the connection is open, \<open>sid\<close> is
  the active session and its row is stored. This is the state \<open>start_session\<close> leaves.
\<close>

definition logger_ok :: "TelemetryLogger \<Rightarrow> int \<Rightarrow> bool" where
  "logger_ok t sid = (conn t \<and> session_id t = Some sid \<and> references_session t sid)"

text \<open>An empty database behind an open connection, as after \<^verbatim>\<open>connect\<close> and \<^verbatim>\<open>init_schema\<close>.\<close>

definition fresh_logger :: TelemetryLogger where
  "fresh_logger = \<lparr>conn = True, session_id = None, sessions = [], sensor_readings = [],
                    actuator_commands = [], events = [], clock = 0\<rparr>"

text \<open>
  The state \<open>s'\<close> differs from \<open>s\<close> on the recorder's side by appended rows only:
  the sensor array, the connection, the active-session binding and the sessions table
  are the same, and the three append-only tables have grown by the given rows.
\<close>

definition appended :: "state \<Rightarrow> state \<Rightarrow> sensor_row list \<Rightarrow> command_row list \<Rightarrow> event_row list \<Rightarrow> bool" where
  "appended s s' rs cs es =
     (sensor s' = sensor s
      \<and> conn (telemetry s') = conn (telemetry s)
      \<and> session_id (telemetry s') = session_id (telemetry s)
      \<and> sessions (telemetry s') = sessions (telemetry s)
      \<and> sensor_readings (telemetry s') = sensor_readings (telemetry s) @ rs
      \<and> actuator_commands (telemetry s') = actuator_commands (telemetry s) @ cs
      \<and> events (telemetry s') = events (telemetry s) @ es)"

text \<open>The identifiers \<open>IR_1\<close>, ..., \<open>IR_n\<close> of the readings of one step.\<close>

definition sensor_names :: "nat \<Rightarrow> string list" where
  "sensor_names n = map (\<lambda>i. ''IR_'' @ str_nat (i + 1)) [0..<n]"

text \<open>
  A sensor array a step can read without raising: at least one channel, a calibration
  pair for every channel, and no channel with \<open>white[i] - black[i] + 1e-6 = 0\<close>.
\<close>

definition well_calibrated :: "IRLineSensor \<Rightarrow> bool" where
  "well_calibrated sen =
     (1 \<le> sensor_n sen
      \<and> length (white sen) = nat (sensor_n sen)
      \<and> length (black sen) = nat (sensor_n sen)
      \<and> (\<forall>i<nat (sensor_n sen). white sen ! i - black sen ! i + 1 / 1000000 \<noteq> 0))"

text \<open>
  The journal entries \<open>logs\<close> are calls of the three logging methods, and each left
  the sessions table \<open>ss\<close>.
\<close>

definition only_logs :: "session_row list \<Rightarrow> (string \<times> session_row list) list \<Rightarrow> bool" where
  "only_logs ss logs =
     (\<forall>c\<in>set logs. fst c \<in> set [''log_sensor'', ''log_command'', ''log_event''] \<and> snd c = ss)"

text \<open>
  The recorder of the state is usable for the session \<open>sid\<close>, its sessions table is
  \<open>ss\<close>, and since the journal was \<open>base\<close> only logging calls were made, none of
  which changed the table: what every statement between \<open>start_session\<close> and
  \<open>end_session\<close> keeps.
\<close>

definition keeps_session ::
  "int \<Rightarrow> session_row list \<Rightarrow> (string \<times> session_row list) list \<Rightarrow> state \<Rightarrow> bool" where
  "keeps_session sid ss base s =
     (logger_ok (telemetry s) sid \<and> sessions (telemetry s) = ss
      \<and> (\<exists>logs. calls s = base @ logs \<and> only_logs ss logs))"

section \<open>Properties of the components\<close>

subsection \<open>PIDController.update\<close>

text \<open>
  C5. For every error and every positive \<open>dt\<close>, \<open>update\<close> adds \<open>error * dt\<close> to the
  integral, takes the derivative \<open>(error - prev_error) / dt\<close>, returns
  \<open>kp * error + ki * integral + kd * derivative\<close> (with the new integral) clamped to
  \<open>[-1, 1]\<close>, and stores the error as the previous error; the value returned lies in
  \<open>[-1, 1]\<close>.
\<close>

theorem PIDController_update_clamped:
  assumes "0 < dt"
  shows "PIDController_update error dt p =
           (Inr (max (- 1) (min 1 (kp p * error + ki p * (integral p + error * dt)
                                    + kd p * ((error - prev_error p) / dt)))),
            p\<lparr>integral := integral p + error * dt, prev_error := error\<rparr>)
         \<and> (\<exists>out. fst (PIDController_update error dt p) = Inr out \<and> - 1 \<le> out \<and> out \<le> 1)"
  using assms by (simp add: PIDController_update_def truediv_def Let_def)

theorem PIDController_update_clamped_witness:
  "(0::real) < 0.1
   \<and> PIDController_update 1 0.1 (PIDController_init 0.8 0.0 0.2) =
       (Inr 1, \<lparr>kp = 0.8, ki = 0, kd = 0.2, prev_error = 1, integral = 0.1\<rparr>)"
  using PIDController_update_clamped [of "0.1" 1 "PIDController_init 0.8 0.0 0.2"]
  by (simp add: PIDController_init_def)

subsection \<open>TrackState.update\<close>



lemma normalize_loop_length:
  "normalize_loop s raw is acc = Inr vs \<Longrightarrow> length vs = length acc + length is"
  by (induction "is" arbitrary: acc) (auto split: sum.splits)

lemma read_normalized_length:
  "read_normalized s raw = Inr vs \<Longrightarrow> length vs = nat (sensor_n s)"
  unfolding read_normalized_def by (drule normalize_loop_length) simp

text \<open>
  C10. \<open>update\<close> returns a boolean on every non-empty vector and raises the division
  by zero on the empty one; on the vector that \<open>read_normalized\<close> hands to it in a
  step, it raises exactly when the sensor count is below 1.
\<close>

theorem TrackState_update_total_on_nonempty:
  "(xs \<noteq> [] \<longrightarrow> (\<exists>b. TrackState_update xs = Inr b))
   \<and> TrackState_update [] = Inl ZeroDivisionError
   \<and> (read_normalized sen raw = Inr nrm \<longrightarrow>
        (TrackState_update nrm = Inl ZeroDivisionError) = (sensor_n sen < 1))"
  by (auto simp: TrackState_update_def TrackState_avg_def truediv_def
           dest!: read_normalized_length)

theorem TrackState_update_total_on_nonempty_witness:
  "[1 / 2] \<noteq> ([]::real list)
   \<and> (\<exists>b. TrackState_update [1 / 2] = Inr b)
   \<and> read_normalized (IRLineSensor_init 0) [] = Inr []
   \<and> TrackState_update [] = Inl ZeroDivisionError
   \<and> sensor_n (IRLineSensor_init 0) < 1"
  using TrackState_update_total_on_nonempty [of "[1 / 2]" "IRLineSensor_init 0" "[]" "[]"]
  by (simp add: read_normalized_def IRLineSensor_init_def)

subsection \<open>The lateral position error\<close>

lemma position_terms_Inr:
  "\<forall>i\<in>set is. i < length nrm \<Longrightarrow>
   position_terms n nrm is =
     Inr (map (\<lambda>i. (real i - (real_of_int n - 1) / 2) * (1 - nrm ! i)) is)"
  by (induction "is") (auto simp: getitem_def)

lemma position_Inr:
  "nat n \<le> length nrm \<Longrightarrow>
   position n nrm = Inr (\<Sum>i<nat n. (real i - (real_of_int n - 1) / 2) * (1 - nrm ! i))"
  by (simp add: position_def position_terms_Inr interv_sum_list_conv_sum_set_nat
                atLeast0LessThan)

text \<open>
  C3. With \<open>n \<ge> 1\<close> sensors and a normalized vector of \<open>n\<close> values, the error of a
  step is the sum over the 0-based index \<open>i\<close> of
  \<open>(i - (n - 1) / 2) * (1 - nrm[i])\<close> divided by \<open>(n - 1) / 2\<close>, and 0 when
  \<open>n = 1\<close>; the computation returns a value, so it never divides by zero.
\<close>

theorem lateral_error_weighted_sum:
  assumes "1 \<le> n" and "length nrm = nat n"
  shows "lateral_error n nrm =
           Inr (if n = 1 then 0
                else (\<Sum>i<nat n. (real i - (real_of_int n - 1) / 2) * (1 - nrm ! i))
                       / ((real_of_int n - 1) / 2))"
  using assms by (simp add: lateral_error_def position_Inr truediv_def)

theorem lateral_error_weighted_sum_witness:
  "(1::int) \<le> 2 \<and> length [0.25, 1::real] = nat 2 \<and> lateral_error 2 [0.25, 1] = Inr (- 0.75)"
  using lateral_error_weighted_sum [of 2 "[0.25, 1]"]
  by (simp add: lessThan_nat_numeral lessThan_Suc)

subsection \<open>IRLineSensor.read_normalized\<close>

lemma normalize_loop_Inr:
  "\<forall>i\<in>set is. i < length (white s) \<and> i < length (black s) \<and> i < length raw
       \<and> white s ! i - black s ! i + 1 / 1000000 \<noteq> 0 \<Longrightarrow>
   normalize_loop s raw is acc =
     Inr (acc @ map (\<lambda>i. max 0 (min 1 ((raw ! i - black s ! i)
                                         / (white s ! i - black s ! i + 1 / 1000000)))) is)"
  by (induction "is" arbitrary: acc) (auto simp: normalize_channel_def getitem_def truediv_def)

lemma read_normalized_Inr:
  assumes "nat (sensor_n s) \<le> length (white s)" and "nat (sensor_n s) \<le> length (black s)"
    and "nat (sensor_n s) \<le> length raw"
    and "\<forall>i<nat (sensor_n s). white s ! i - black s ! i + 1 / 1000000 \<noteq> 0"
  shows "read_normalized s raw =
           Inr (map (\<lambda>i. max 0 (min 1 ((raw ! i - black s ! i)
                                        / (white s ! i - black s ! i + 1 / 1000000))))
                    [0..<nat (sensor_n s)])"
  unfolding read_normalized_def using assms by (subst normalize_loop_Inr) auto

text \<open>
  C4, as the code has it. \<open>read_normalized\<close> raises on a raw vector with fewer
  values than channels, and on a calibration in which some channel has
  \<open>white[i] - black[i] + 1e-6 = 0\<close>: the pass \<open>calibrate([0.0], [1e-6])\<close> whose
  draws are all 0.0 stores such a calibration.
\<close>

theorem read_normalized_raises:
  "read_normalized (IRLineSensor_init 2) [1 / 2] = Inl IndexError
   \<and> IRLineSensor_calibrate [0] [1 / 1000000] zero_draws (IRLineSensor_init 1)
       = (None, \<lparr>sensor_n = 1, white = [0], black = [1 / 1000000]\<rparr>)
   \<and> read_normalized \<lparr>sensor_n = 1, white = [0], black = [1 / 1000000]\<rparr> [1 / 2]
       = Inl ZeroDivisionError"
  by (simp add: IRLineSensor_calibrate_def IRLineSensor_init_def calibrate_channel_def
                getitem_def uniform_def zero_draws_def read_normalized_def
                normalize_channel_def truediv_def upt_rec)

text \<open>
  C4, amended. For every stored calibration of \<open>n\<close> channels in which no channel has
  \<open>white[i] - black[i] + 1e-6 = 0\<close> and every raw vector of at least \<open>n\<close> values,
  \<open>read_normalized\<close> returns \<open>n\<close> values, the one of channel \<open>i\<close> being
  \<open>(raw[i] - black[i]) / (white[i] - black[i] + 1e-6)\<close> clamped to \<open>[0, 1]\<close>, so
  each lies in \<open>[0, 1]\<close>; this covers every channel with \<open>white[i] = black[i]\<close>. The
  function returns no new sensor state: the calibration is not modified.
\<close>

theorem read_normalized_clamped:
  assumes "nat (sensor_n s) \<le> length (white s)" and "nat (sensor_n s) \<le> length (black s)"
    and "nat (sensor_n s) \<le> length raw"
    and "\<forall>i<nat (sensor_n s). white s ! i - black s ! i + 1 / 1000000 \<noteq> 0"
  shows "\<exists>vs. read_normalized s raw = Inr vs \<and> length vs = nat (sensor_n s)
           \<and> (\<forall>i<nat (sensor_n s).
                 vs ! i = max 0 (min 1 ((raw ! i - black s ! i)
                                        / (white s ! i - black s ! i + 1 / 1000000)))
                 \<and> 0 \<le> vs ! i \<and> vs ! i \<le> 1)"
  using read_normalized_Inr [OF assms] by simp

theorem read_normalized_clamped_witness:
  "read_normalized \<lparr>sensor_n = 1, white = [1 / 2], black = [1 / 2]\<rparr> [3 / 4] = Inr [1]"
  using read_normalized_clamped [of "\<lparr>sensor_n = 1, white = [1 / 2], black = [1 / 2]\<rparr>" "[3 / 4]"]
  by (auto simp: length_Suc_conv)

section \<open>Properties of the recorder\<close>

text \<open>
  C9. A successful \<open>end_session\<close> on a recorder whose active session \<open>sid\<close> is
  stored sets ended-at and status of that session's row and changes nothing else of
  the recorder (none of the fields of the Python object; the clock has advanced):
  the binding \<open>session_id\<close>, the connection and the three append-only tables are the
  same. A later \<open>log_sensor\<close>, \<open>log_command\<close> or \<open>log_event\<close> therefore does not
  fail: it appends a row keyed to the ended session \<open>sid\<close>.
\<close>

theorem end_session_keeps_binding:
  assumes "end_session status t = Inr t'" and "session_id t = Some sid"
    and "references_session t sid"
    and "severity \<in> set [''info'', ''warning'', ''error'']"
  shows "session_id t' = session_id t \<and> conn t' = conn t
     \<and> sensor_readings t' = sensor_readings t \<and> actuator_commands t' = actuator_commands t
     \<and> events t' = events t
     \<and> sessions t' = map (\<lambda>r. if s_id r = sid
                                then r\<lparr>s_ended_at := Some (clock t), s_status := status\<rparr>
                                else r) (sessions t)
     \<and> log_sensor sensor_type val unit t' =
         Inr (t'\<lparr>sensor_readings := sensor_readings t' @
                  [\<lparr>r_session_id = sid, r_sensor_type = sensor_type, r_timestamp = clock t',
                    r_value = val, r_unit = unit\<rparr>], clock := Suc (clock t')\<rparr>)
     \<and> log_command actuator_type command cstatus t' =
         Inr (t'\<lparr>actuator_commands := actuator_commands t' @
                  [\<lparr>c_session_id = sid, c_actuator_type = actuator_type, c_timestamp = clock t',
                    c_command = command, c_status = cstatus\<rparr>], clock := Suc (clock t')\<rparr>)
     \<and> log_event event_type severity msg t' =
         Inr (t'\<lparr>events := events t' @
                  [\<lparr>e_session_id = sid, e_timestamp = clock t', e_event_type = event_type,
                    e_severity = severity, e_message = msg\<rparr>], clock := Suc (clock t')\<rparr>)"
proof -
  from assms(1,2)
  have t': "t' = t\<lparr>sessions := map (\<lambda>r. if s_id r = sid
                                         then r\<lparr>s_ended_at := Some (clock t), s_status := status\<rparr>
                                         else r) (sessions t),
                   clock := Suc (clock t)\<rparr>"
    and c: "conn t"
    by (auto simp: end_session_def Let_def split: if_splits)
  have ids: "map s_id (sessions t') = map s_id (sessions t)"
    unfolding t' by (simp add: comp_def if_distrib cong: if_cong)
  have ref: "references_session t' sid"
    using assms(3) ids by (simp add: references_session_def del: set_map)
  show ?thesis
    using c ref assms(2,4) unfolding log_sensor_def log_command_def log_event_def Let_def
    by (simp add: t')
qed

theorem end_session_keeps_binding_witness:
  "end_session ''completed''
     \<lparr>conn = True, session_id = Some 1,
      sessions = [\<lparr>s_id = 1, s_variant_id = 1, s_started_at = 0, s_ended_at = None,
                   s_status = ''running''\<rparr>],
      sensor_readings = [], actuator_commands = [], events = [], clock = 1\<rparr>
   = Inr \<lparr>conn = True, session_id = Some 1,
          sessions = [\<lparr>s_id = 1, s_variant_id = 1, s_started_at = 0, s_ended_at = Some 1,
                       s_status = ''completed''\<rparr>],
          sensor_readings = [], actuator_commands = [], events = [], clock = 2\<rparr>
   \<and> log_event ''late'' ''info'' CalibrationDone
       \<lparr>conn = True, session_id = Some 1,
        sessions = [\<lparr>s_id = 1, s_variant_id = 1, s_started_at = 0, s_ended_at = Some 1,
                     s_status = ''completed''\<rparr>],
        sensor_readings = [], actuator_commands = [], events = [], clock = 2\<rparr>
     = Inr \<lparr>conn = True, session_id = Some 1,
            sessions = [\<lparr>s_id = 1, s_variant_id = 1, s_started_at = 0, s_ended_at = Some 1,
                         s_status = ''completed''\<rparr>],
            sensor_readings = [], actuator_commands = [],
            events = [\<lparr>e_session_id = 1, e_timestamp = 2, e_event_type = ''late'',
                       e_severity = ''info'', e_message = CalibrationDone\<rparr>], clock = 3\<rparr>"
proof -
  let ?t = "\<lparr>conn = True, session_id = Some 1,
      sessions = [\<lparr>s_id = 1, s_variant_id = 1, s_started_at = 0, s_ended_at = None,
                   s_status = ''running''\<rparr>],
      sensor_readings = [], actuator_commands = [], events = [], clock = 1\<rparr>"
  let ?t' = "\<lparr>conn = True, session_id = Some 1,
          sessions = [\<lparr>s_id = 1, s_variant_id = 1, s_started_at = 0, s_ended_at = Some 1,
                       s_status = ''completed''\<rparr>],
          sensor_readings = [], actuator_commands = [], events = [], clock = 2\<rparr>"
  have e: "end_session ''completed'' ?t = Inr ?t'"
    by (simp add: end_session_def references_session_def Let_def)
  have r: "references_session ?t 1"
    by (simp add: references_session_def)
  have v: "''info'' \<in> set [''info'', ''warning'', ''error'']"
    by simp
  show ?thesis
    using e end_session_keeps_binding [OF e _ r v, where event_type = "''late''" and msg = CalibrationDone]
    by simp
qed

section \<open>Properties of a run\<close>

subsection \<open>Statements that cannot raise on a usable recorder\<close>

lemma and_then_Inr [simp]: "and_then (Inr x, s) f = f x s"
  by (simp add: and_then_def)

lemma and_then_Inl [simp]: "and_then (Inl e, s) f = (Inl e, s)"
  by (simp add: and_then_def)

lemma net_simp [simp]: "net f s = (Inr (), s\<lparr>posts := f (posts s)\<rparr>)"
  by (simp add: net_def)

lemma tel_log_sensor:
  "logger_ok (telemetry s) sid \<Longrightarrow>
   tel ''log_sensor'' (log_sensor ty v u) s =
     (Inr (), s\<lparr>telemetry := (telemetry s)\<lparr>sensor_readings := sensor_readings (telemetry s) @
         [\<lparr>r_session_id = sid, r_sensor_type = ty, r_timestamp = clock (telemetry s), r_value = v, r_unit = u\<rparr>],
         clock := Suc (clock (telemetry s))\<rparr>,
       calls := calls s @ [(''log_sensor'', sessions (telemetry s))]\<rparr>)"
  by (simp add: tel_def log_sensor_def logger_ok_def Let_def)

lemma tel_log_command:
  "logger_ok (telemetry s) sid \<Longrightarrow>
   tel ''log_command'' (log_command ty v u) s =
     (Inr (), s\<lparr>telemetry := (telemetry s)\<lparr>actuator_commands := actuator_commands (telemetry s) @
         [\<lparr>c_session_id = sid, c_actuator_type = ty, c_timestamp = clock (telemetry s), c_command = v, c_status = u\<rparr>],
         clock := Suc (clock (telemetry s))\<rparr>,
       calls := calls s @ [(''log_command'', sessions (telemetry s))]\<rparr>)"
  by (simp add: tel_def log_command_def logger_ok_def Let_def)

lemma tel_log_event:
  "logger_ok (telemetry s) sid \<Longrightarrow> sev \<in> set [''info'', ''warning'', ''error''] \<Longrightarrow>
   tel ''log_event'' (log_event ty sev m) s =
     (Inr (), s\<lparr>telemetry := (telemetry s)\<lparr>events := events (telemetry s) @
         [\<lparr>e_session_id = sid, e_timestamp = clock (telemetry s), e_event_type = ty, e_severity = sev, e_message = m\<rparr>],
         clock := Suc (clock (telemetry s))\<rparr>,
       calls := calls s @ [(''log_event'', sessions (telemetry s))]\<rparr>)"
  by (simp add: tel_def log_event_def logger_ok_def Let_def)

lemma logger_ok_cong:
  "conn t' = conn t \<Longrightarrow> session_id t' = session_id t \<Longrightarrow> map s_id (sessions t') = map s_id (sessions t) \<Longrightarrow>
   logger_ok t' sid = logger_ok t sid"
  by (simp add: logger_ok_def references_session_def del: set_map)

lemma appended_refl: "appended s s [] [] []"
  by (simp add: appended_def)

lemma appended_trans:
  "appended s s1 rs cs es \<Longrightarrow> appended s1 s2 rs' cs' es' \<Longrightarrow> appended s s2 (rs @ rs') (cs @ cs') (es @ es')"
  by (simp add: appended_def)

lemma appended_logger_ok:
  "appended s s' rs cs es \<Longrightarrow> logger_ok (telemetry s') sid = logger_ok (telemetry s) sid"
  by (rule logger_ok_cong) (simp_all add: appended_def)

lemma log_sensors_good:
  "logger_ok (telemetry s) sid \<Longrightarrow>
   \<exists>s' rs. log_sensors rid i vals s = (Inr (), s') \<and> appended s s' rs [] []
      \<and> pid s' = pid s
      \<and> map r_sensor_type rs = map (\<lambda>j. ''IR_'' @ str_nat (j + 1)) [i..<i + length vals]
      \<and> map r_value rs = vals
      \<and> (\<forall>r\<in>set rs. r_session_id r = sid)
      \<and> (rid = None \<longrightarrow> posts s' = posts s)"
proof (induction vals arbitrary: i s)
  case Nil
  then show ?case by (simp add: appended_refl)
next
  case (Cons v vals)
  let ?name = "''IR_'' @ str_nat (i + 1)"
  let ?row = "\<lparr>r_session_id = sid, r_sensor_type = ?name, r_timestamp = clock (telemetry s), r_value = v, r_unit = unit_norm\<rparr>"
  let ?s1 = "s\<lparr>telemetry := (telemetry s)\<lparr>sensor_readings := sensor_readings (telemetry s) @ [?row],
         clock := Suc (clock (telemetry s))\<rparr>,
       calls := calls s @ [(''log_sensor'', sessions (telemetry s))]\<rparr>"
  let ?s2 = "?s1\<lparr>posts := http_log_sensor rid ?name v unit_norm (posts ?s1)\<rparr>"
  have a1: "appended s ?s2 [?row] [] []" by (simp add: appended_def)
  have ok2: "logger_ok (telemetry ?s2) sid"
    using Cons.prems appended_logger_ok[OF a1] by simp
  from Cons.IH[OF ok2, of "Suc i"] obtain s' rs where
    st: "log_sensors rid (Suc i) vals ?s2 = (Inr (), s')" and a2: "appended ?s2 s' rs [] []"
    and p: "pid s' = pid ?s2"
    and nm: "map r_sensor_type rs = map (\<lambda>j. ''IR_'' @ str_nat (j + 1)) [Suc i..<Suc i + length vals]"
    and vl: "map r_value rs = vals"
    and sd: "\<forall>r\<in>set rs. r_session_id r = sid"
    and ps: "rid = None \<longrightarrow> posts s' = posts ?s2"
    by blast
  have run: "log_sensors rid i (v # vals) s = (Inr (), s')"
    using st by (simp add: tel_log_sensor[OF Cons.prems] Let_def)
  have app: "appended s s' ([?row] @ rs) ([] @ []) ([] @ [])"
    by (rule appended_trans[OF a1 a2])
  have nm': "map r_sensor_type (?row # rs) = map (\<lambda>j. ''IR_'' @ str_nat (j + 1)) [i..<i + length (v # vals)]"
    using nm by (simp add: upt_conv_Cons del: upt_Suc)
  have ps': "rid = None \<longrightarrow> posts s' = posts s"
    using ps by (simp add: http_log_sensor_def)
  show ?case
    apply (rule exI[of _ s'], rule exI[of _ "?row # rs"])
    using run app nm' vl sd ps' p by simp
qed

lemma logger_ok_upd [simp]:
  "logger_ok (t\<lparr>events := es\<rparr>) sid = logger_ok t sid"
  "logger_ok (t\<lparr>sensor_readings := rs\<rparr>) sid = logger_ok t sid"
  "logger_ok (t\<lparr>actuator_commands := cs\<rparr>) sid = logger_ok t sid"
  "logger_ok (t\<lparr>clock := c\<rparr>) sid = logger_ok t sid"
  by (simp_all add: logger_ok_def references_session_def)

lemma lateral_error_Inr:
  "nat n \<le> length nrm \<Longrightarrow> \<exists>err. lateral_error n nrm = Inr err"
  by (simp add: lateral_error_def position_Inr truediv_def)

lemma PIDController_update_Inr:
  "\<exists>out p'. PIDController_update err 0.1 p = (Inr out, p')"
  by (simp add: PIDController_update_def truediv_def Let_def)

lemma TrackState_update_Inr:
  "xs \<noteq> [] \<Longrightarrow> \<exists>b. TrackState_update xs = Inr b"
  by (simp add: TrackState_update_def TrackState_avg_def truediv_def)

lemma step_good:
  assumes ok: "logger_ok (telemetry s) sid"
    and wc: "well_calibrated (sensor s)"
    and lr: "nat (sensor_n (sensor s)) \<le> length raw"
  shows "\<exists>c' s' rs cs es. follow_line_step rid u k raw c s = (Inr c', s')
      \<and> appended s s' rs cs es
      \<and> map r_sensor_type rs = sensor_names (nat (sensor_n (sensor s)))
      \<and> (\<forall>r\<in>set rs. r_session_id r = sid)
      \<and> map c_actuator_type cs = [''Motor_L'', ''Motor_R'']
      \<and> (\<forall>c\<in>set cs. c_session_id c = sid)
      \<and> (\<forall>e\<in>set es. e_event_type e = ''line_tracking'' \<and> e_severity e = ''warning'')
      \<and> (rid = None \<longrightarrow> posts s' = posts s)
      \<and> fst c' + snd c' = Suc (fst c + snd c)"
proof -
  let ?n = "nat (sensor_n (sensor s))"
  define noisy where "noisy = map (\<lambda>(j, v). max 0 (min 1 (v + uniform (- 0.05) 0.05 (u j)))) (enumerate 0 raw)"
  have ln: "?n \<le> length noisy" using lr by (simp add: noisy_def)
  from wc have w: "?n \<le> length (white (sensor s))" "?n \<le> length (black (sensor s))"
    "\<forall>i<?n. white (sensor s) ! i - black (sensor s) ! i + 1 / 1000000 \<noteq> 0" and n1: "1 \<le> sensor_n (sensor s)"
    by (simp_all add: well_calibrated_def)
  obtain nrm where rn: "read_normalized (sensor s) noisy = Inr nrm"
    using read_normalized_Inr[OF w(1,2) ln w(3)] by blast
  have len: "length nrm = ?n" by (rule read_normalized_length[OF rn])
  have ne: "nrm \<noteq> []" using len n1 by auto
  obtain s1 rs where ls: "log_sensors rid 0 nrm s = (Inr (), s1)" and a1: "appended s s1 rs [] []"
    and nm: "map r_sensor_type rs = map (\<lambda>j. ''IR_'' @ str_nat (j + 1)) [0..<0 + length nrm]"
    and sd: "\<forall>r\<in>set rs. r_session_id r = sid"
    and ps: "rid = None \<longrightarrow> posts s1 = posts s"
    using log_sensors_good[OF ok, of rid 0 nrm] by blast
  have ok1: "logger_ok (telemetry s1) sid" using ok appended_logger_ok[OF a1] by simp
  have sen1: "sensor s1 = sensor s" using a1 by (simp add: appended_def)
  obtain err where le: "lateral_error (sensor_n (sensor s)) nrm = Inr err"
    using lateral_error_Inr[of "sensor_n (sensor s)" nrm] len by auto
  obtain out p' where pu: "PIDController_update err 0.1 (pid s1) = (Inr out, p')"
    using PIDController_update_Inr by blast
  obtain b where tu: "TrackState_update nrm = Inr b"
    using TrackState_update_Inr[OF ne] by blast
  note tl = tel_log_command[where sid = sid] tel_log_event[where sid = sid]
  let ?left = "max (- 1) (min 1 (0.5 - out))" and ?right = "max (- 1) (min 1 (0.5 + out))"
  show ?thesis
  proof (cases b)
    case True
    let ?t1 = "telemetry s1"
    let ?c1 = "\<lparr>c_session_id = sid, c_actuator_type = ''Motor_L'', c_timestamp = clock ?t1, c_command = ?left, c_status = ''sent''\<rparr>"
    let ?c2 = "\<lparr>c_session_id = sid, c_actuator_type = ''Motor_R'', c_timestamp = Suc (clock ?t1), c_command = ?right, c_status = ''sent''\<rparr>"
    let ?s' = "s1\<lparr>pid := p', telemetry := ?t1\<lparr>actuator_commands := actuator_commands ?t1 @ [?c1, ?c2], clock := Suc (Suc (clock ?t1))\<rparr>,
                 posts := http_log_actuator rid ''Motor_R'' ?right ''sent'' (http_log_actuator rid ''Motor_L'' ?left ''sent'' (posts s1)),
                 calls := calls s1 @ [(''log_command'', sessions ?t1), (''log_command'', sessions ?t1)]\<rparr>"
    have run: "follow_line_step rid u k raw c s = (Inr (Suc (fst c), snd c), ?s')"
      using True ok1
      unfolding follow_line_step_def Let_def noisy_def[symmetric]
      by (simp add: rn ls sen1 le pid_step_def pu tu MotorPair_drive_def Let_def tl)
    have a2: "appended s1 ?s' [] [?c1, ?c2] []"
      by (simp add: appended_def)
    have app: "appended s ?s' (rs @ []) ([] @ [?c1, ?c2]) ([] @ [])"
      by (rule appended_trans[OF a1 a2])
    have ps': "rid = None \<longrightarrow> posts ?s' = posts s"
      using ps by (simp add: http_log_actuator_def)
    show ?thesis
      apply (rule exI[of _ "(Suc (fst c), snd c)"], rule exI[of _ ?s'], rule exI[of _ rs],
             rule exI[of _ "[?c1, ?c2]"], rule exI[of _ "[]"])
      using run app nm sd ps' len by (simp add: sensor_names_def)
  next
    case False
    let ?t1 = "telemetry s1"
    let ?e = "\<lparr>e_session_id = sid, e_timestamp = clock ?t1, e_event_type = ''line_tracking'', e_severity = ''warning'', e_message = OffTrackAtStep k\<rparr>"
    let ?c1 = "\<lparr>c_session_id = sid, c_actuator_type = ''Motor_L'', c_timestamp = Suc (clock ?t1), c_command = ?left, c_status = ''sent''\<rparr>"
    let ?c2 = "\<lparr>c_session_id = sid, c_actuator_type = ''Motor_R'', c_timestamp = Suc (Suc (clock ?t1)), c_command = ?right, c_status = ''sent''\<rparr>"
    let ?s' = "s1\<lparr>pid := p', telemetry := ?t1\<lparr>events := events ?t1 @ [?e], actuator_commands := actuator_commands ?t1 @ [?c1, ?c2], clock := Suc (Suc (Suc (clock ?t1)))\<rparr>,
                 posts := http_log_actuator rid ''Motor_R'' ?right ''sent'' (http_log_actuator rid ''Motor_L'' ?left ''sent''
                    (http_log_event rid ''line_tracking'' ''warning'' (OffTrackAtStep k) (posts s1))),
                 calls := calls s1 @ [(''log_event'', sessions ?t1), (''log_command'', sessions ?t1),
                                      (''log_command'', sessions ?t1)]\<rparr>"
    have run: "follow_line_step rid u k raw c s = (Inr (fst c, Suc (snd c)), ?s')"
      using False ok1
      unfolding follow_line_step_def Let_def noisy_def[symmetric]
      by (simp add: rn ls sen1 le pid_step_def pu tu MotorPair_drive_def Let_def tl)
    have a2: "appended s1 ?s' [] [?c1, ?c2] [?e]"
      by (simp add: appended_def)
    have app: "appended s ?s' (rs @ []) ([] @ [?c1, ?c2]) ([] @ [?e])"
      by (rule appended_trans[OF a1 a2])
    have ps': "rid = None \<longrightarrow> posts ?s' = posts s"
      using ps by (simp add: http_log_actuator_def http_log_event_def)
    show ?thesis
      apply (rule exI[of _ "(fst c, Suc (snd c))"], rule exI[of _ ?s'], rule exI[of _ rs],
             rule exI[of _ "[?c1, ?c2]"], rule exI[of _ "[?e]"])
      using run app nm sd ps' len by (simp add: sensor_names_def)
  qed
qed

subsection \<open>The loop over well-formed frames\<close>

lemma loop_good:
  assumes "logger_ok (telemetry s) sid" and "well_calibrated (sensor s)"
    and "\<forall>raw\<in>set ms. nat (sensor_n (sensor s)) \<le> length raw"
  shows "\<exists>c' s' rs cs es. follow_line_loop rid rnd k ms c s = (Inr c', s')
      \<and> appended s s' rs cs es
      \<and> map r_sensor_type rs = concat (replicate (length ms) (sensor_names (nat (sensor_n (sensor s)))))
      \<and> (\<forall>r\<in>set rs. r_session_id r = sid)
      \<and> map c_actuator_type cs = concat (replicate (length ms) [''Motor_L'', ''Motor_R''])
      \<and> (\<forall>c\<in>set cs. c_session_id c = sid)
      \<and> (\<forall>e\<in>set es. e_event_type e = ''line_tracking'' \<and> e_severity e = ''warning'')
      \<and> (rid = None \<longrightarrow> posts s' = posts s)
      \<and> fst c' + snd c' = fst c + snd c + length ms"
  using assms
proof (induction ms arbitrary: k c s)
  case Nil
  show ?case
    apply (rule exI[of _ c], rule exI[of _ s], rule exI[of _ "[]"], rule exI[of _ "[]"], rule exI[of _ "[]"])
    by (simp add: appended_refl)
next
  case (Cons raw ms)
  let ?n = "nat (sensor_n (sensor s))"
  have lr: "?n \<le> length raw" using Cons.prems(3) by simp
  obtain c1 s1 rs1 cs1 es1 where
    st: "follow_line_step rid (rnd k) k raw c s = (Inr c1, s1)"
    and a1: "appended s s1 rs1 cs1 es1"
    and f1: "map r_sensor_type rs1 = sensor_names ?n" "\<forall>r\<in>set rs1. r_session_id r = sid"
      "map c_actuator_type cs1 = [''Motor_L'', ''Motor_R'']" "\<forall>c\<in>set cs1. c_session_id c = sid"
      "\<forall>e\<in>set es1. e_event_type e = ''line_tracking'' \<and> e_severity e = ''warning''"
      "rid = None \<longrightarrow> posts s1 = posts s" "fst c1 + snd c1 = Suc (fst c + snd c)"
    using step_good[OF Cons.prems(1,2) lr, of rid "rnd k" k c]
    by (elim exE conjE) (rule that; assumption)
  have sen: "sensor s1 = sensor s" using a1 by (simp add: appended_def)
  have ok1: "logger_ok (telemetry s1) sid"
    using Cons.prems(1) appended_logger_ok[OF a1] by simp
  have wc1: "well_calibrated (sensor s1)" using Cons.prems(2) sen by simp
  have fr1: "\<forall>raw\<in>set ms. nat (sensor_n (sensor s1)) \<le> length raw"
    using Cons.prems(3) sen by simp
  obtain c2 s2 rs2 cs2 es2 where
    lp: "follow_line_loop rid rnd (Suc k) ms c1 s1 = (Inr c2, s2)"
    and a2: "appended s1 s2 rs2 cs2 es2"
    and f2: "map r_sensor_type rs2 = concat (replicate (length ms) (sensor_names ?n))"
      "\<forall>r\<in>set rs2. r_session_id r = sid"
      "map c_actuator_type cs2 = concat (replicate (length ms) [''Motor_L'', ''Motor_R''])"
      "\<forall>c\<in>set cs2. c_session_id c = sid"
      "\<forall>e\<in>set es2. e_event_type e = ''line_tracking'' \<and> e_severity e = ''warning''"
      "rid = None \<longrightarrow> posts s2 = posts s1" "fst c2 + snd c2 = fst c1 + snd c1 + length ms"
    using Cons.IH[OF ok1 wc1 fr1, of "Suc k" c1] unfolding sen
    by (elim exE conjE) (rule that; assumption)
  have run: "follow_line_loop rid rnd k (raw # ms) c s = (Inr c2, s2)"
    using st lp by simp
  have app: "appended s s2 (rs1 @ rs2) (cs1 @ cs2) (es1 @ es2)"
    by (rule appended_trans[OF a1 a2])
  show ?case
    apply (rule exI[of _ c2], rule exI[of _ s2], rule exI[of _ "rs1 @ rs2"],
           rule exI[of _ "cs1 @ cs2"], rule exI[of _ "es1 @ es2"])
    using run app f1 f2 by auto
qed

lemma fold_max_ge: "(a::int) \<le> fold max xs a \<and> (\<forall>x\<in>set xs. x \<le> fold max xs a)"
proof (induction xs arbitrary: a)
  case Nil
  then show ?case by simp
next
  case (Cons x xs)
  from Cons[of "max x a"] show ?case by auto
qed

lemma lastrowid_fresh: "r \<in> set rows \<Longrightarrow> s_id r < lastrowid rows"
proof (cases rows)
  case Nil
  assume "r \<in> set rows" with Nil show ?thesis by simp
next
  case (Cons r0 rs)
  assume "r \<in> set rows"
  with Cons fold_max_ge[of "s_id r0" "map s_id rs"] show ?thesis
    by (auto simp: lastrowid_def)
qed

lemma end_fresh_row:
  "map (\<lambda>r. if s_id r = lastrowid rows then f r else r) (rows @ [row\<lparr>s_id := lastrowid rows\<rparr>])
     = rows @ [f (row\<lparr>s_id := lastrowid rows\<rparr>)]"
proof -
  have "map (\<lambda>r. if s_id r = lastrowid rows then f r else r) rows = rows"
    using lastrowid_fresh[of _ rows] by (intro map_idI) fastforce
  then show ?thesis by simp
qed

subsection \<open>What every step keeps, also when it raises\<close>

lemma and_then_inv:
  "P (snd r) \<Longrightarrow> (\<And>x s. P s \<Longrightarrow> P (snd (f x s))) \<Longrightarrow> P (snd (and_then r f))"
  by (cases r; cases "fst r") (auto simp: and_then_def)

lemmas keeps_and_then = and_then_inv[where P = "keeps_session sid ss base" for sid ss base]

lemma keeps_session_log:
  assumes k: "keeps_session sid ss base s"
    and ok: "logger_ok (telemetry s') sid"
    and ss: "sessions (telemetry s') = ss"
    and cl: "calls s' = calls s @ [(name, ss)]"
    and nm: "name \<in> set [''log_sensor'', ''log_command'', ''log_event'']"
  shows "keeps_session sid ss base s'"
proof -
  from k obtain logs where c: "calls s = base @ logs" and l: "only_logs ss logs"
    unfolding keeps_session_def by blast
  have c': "calls s' = base @ (logs @ [(name, ss)])" using c cl by simp
  have l': "only_logs ss (logs @ [(name, ss)])"
    using l nm unfolding only_logs_def by auto
  show ?thesis
    unfolding keeps_session_def using ok ss c' l' by blast
qed

lemma keeps_posts [simp]: "keeps_session sid ss base (s\<lparr>posts := ps\<rparr>) = keeps_session sid ss base s"
  by (simp add: keeps_session_def)

lemma keeps_pid [simp]: "keeps_session sid ss base (s\<lparr>pid := p\<rparr>) = keeps_session sid ss base s"
  by (simp add: keeps_session_def)

lemma keeps_tel_sensor:
  assumes k: "keeps_session sid ss base s"
  shows "keeps_session sid ss base (snd (tel ''log_sensor'' (log_sensor ty v u) s))"
proof -
  from k have ok: "logger_ok (telemetry s) sid" and ss: "sessions (telemetry s) = ss"
    by (simp_all add: keeps_session_def)
  show ?thesis
    by (rule keeps_session_log[OF k, where name = "''log_sensor''"])
       (simp_all add: tel_log_sensor[OF ok] ok ss)
qed

lemma keeps_tel_command:
  assumes k: "keeps_session sid ss base s"
  shows "keeps_session sid ss base (snd (tel ''log_command'' (log_command ty v u) s))"
proof -
  from k have ok: "logger_ok (telemetry s) sid" and ss: "sessions (telemetry s) = ss"
    by (simp_all add: keeps_session_def)
  show ?thesis
    by (rule keeps_session_log[OF k, where name = "''log_command''"])
       (simp_all add: tel_log_command[OF ok] ok ss)
qed

lemma keeps_tel_event:
  assumes k: "keeps_session sid ss base s"
    and sv: "sev \<in> set [''info'', ''warning'', ''error'']"
  shows "keeps_session sid ss base (snd (tel ''log_event'' (log_event ty sev m) s))"
proof -
  from k have ok: "logger_ok (telemetry s) sid" and ss: "sessions (telemetry s) = ss"
    by (simp_all add: keeps_session_def)
  show ?thesis
    by (rule keeps_session_log[OF k, where name = "''log_event''"])
       (simp_all add: tel_log_event[OF ok sv] ok ss)
qed

lemma keeps_log_sensors:
  "keeps_session sid ss base s \<Longrightarrow> keeps_session sid ss base (snd (log_sensors rid i vals s))"
proof (induction vals arbitrary: i s)
  case Nil
  then show ?case by simp
next
  case (Cons v vals)
  let ?name = "''IR_'' @ str_nat (i + 1)"
  from Cons.prems have ok: "logger_ok (telemetry s) sid" by (simp add: keeps_session_def)
  obtain s1 where t: "tel ''log_sensor'' (log_sensor ?name v unit_norm) s = (Inr (), s1)"
    using tel_log_sensor[OF ok, of ?name v unit_norm] by blast
  have k1: "keeps_session sid ss base s1"
    using keeps_tel_sensor[OF Cons.prems, of ?name v unit_norm] unfolding t by simp
  have k2: "keeps_session sid ss base (s1\<lparr>posts := http_log_sensor rid ?name v unit_norm (posts s1)\<rparr>)"
    using k1 by simp
  have run: "log_sensors rid i (v # vals) s =
      log_sensors rid (Suc i) vals (s1\<lparr>posts := http_log_sensor rid ?name v unit_norm (posts s1)\<rparr>)"
    unfolding log_sensors.simps Let_def t by simp
  show ?case unfolding run by (rule Cons.IH[OF k2])
qed

lemma keeps_drive:
  "keeps_session sid ss base s \<Longrightarrow> keeps_session sid ss base (snd (MotorPair_drive b d s))"
  unfolding MotorPair_drive_def Let_def
  by (intro keeps_and_then keeps_tel_command) simp_all

lemma keeps_pid_step:
  "keeps_session sid ss base s \<Longrightarrow> keeps_session sid ss base (snd (pid_step e s))"
  by (simp add: pid_step_def split: prod.splits)

lemma keeps_step:
  assumes "keeps_session sid ss base s"
  shows "keeps_session sid ss base (snd (follow_line_step rid u k raw c s))"
  unfolding follow_line_step_def Let_def
  apply (intro keeps_and_then)
  using assms apply simp
           apply (erule keeps_log_sensors)
          apply simp
        apply (erule keeps_pid_step)
       apply simp
      apply (simp split: if_splits)
      apply (intro conjI impI keeps_and_then keeps_tel_event; simp)
     apply (erule keeps_drive)
    apply (simp split: prod.splits)
  done

lemma keeps_loop:
  "keeps_session sid ss base s \<Longrightarrow> keeps_session sid ss base (snd (follow_line_loop rid rnd k ms c s))"
proof (induction ms arbitrary: k c s)
  case Nil
  then show ?case by simp
next
  case (Cons raw ms)
  from keeps_step[OF Cons.prems, of rid "rnd k" k raw c] Cons.IH
  show ?case by (auto split: prod.splits sum.splits)
qed

subsection \<open>A whole run over well-formed frames\<close>

lemma http_create_session_posts:
  "snd (http_create_session reply ps) = ps @ [POST_sessions VARIANT_ID]"
  by (simp add: http_create_session_def)

lemma entry_run:
  assumes c: "conn (telemetry s)"
    and sid: "sid = lastrowid (sessions (telemetry s))"
    and rid: "rid = fst (http_create_session reply (posts s))"
  shows "\<exists>s0. follow_line_entry label reply s = (Inr rid, s0)
      \<and> sensor s0 = sensor s \<and> pid s0 = pid s
      \<and> logger_ok (telemetry s0) sid
      \<and> sessions (telemetry s0) = sessions (telemetry s) @
            [\<lparr>s_id = sid, s_variant_id = VARIANT_ID, s_started_at = clock (telemetry s),
              s_ended_at = None, s_status = ''running''\<rparr>]
      \<and> sensor_readings (telemetry s0) = sensor_readings (telemetry s)
      \<and> actuator_commands (telemetry s0) = actuator_commands (telemetry s)
      \<and> events (telemetry s0) = events (telemetry s) @
            (if rid = None
             then [\<lparr>e_session_id = sid, e_timestamp = Suc (clock (telemetry s)), e_event_type = ''server'',
                     e_severity = ''warning'', e_message = ServerUnreachable\<rparr>,
                   \<lparr>e_session_id = sid, e_timestamp = Suc (Suc (clock (telemetry s))),
                     e_event_type = ''scenario_start_local'', e_severity = ''info'',
                     e_message = ScenarioStartLocal label\<rparr>]
             else [\<lparr>e_session_id = sid, e_timestamp = Suc (clock (telemetry s)),
                     e_event_type = ''scenario_start_local'', e_severity = ''info'',
                     e_message = ScenarioStartLocal label\<rparr>])
      \<and> posts s0 = posts s @ POST_sessions VARIANT_ID #
            (case rid of None \<Rightarrow> []
             | Some i \<Rightarrow> [POST_events i ''scenario_start'' ''info'' (ScenarioStart label)])"
proof -
  let ?t = "telemetry s"
  let ?row = "\<lparr>s_id = sid, s_variant_id = VARIANT_ID, s_started_at = clock ?t,
              s_ended_at = None, s_status = ''running''\<rparr>"
  let ?t1 = "?t\<lparr>sessions := sessions ?t @ [?row], session_id := Some sid, clock := Suc (clock ?t)\<rparr>"
  let ?s1 = "s\<lparr>telemetry := ?t1, posts := posts s @ [POST_sessions VARIANT_ID]\<rparr>"
  have st: "start_session VARIANT_ID ?t = Inr (sid, ?t1)"
    using c by (simp add: start_session_def sid Let_def)
  have ok1: "logger_ok (telemetry ?s1) sid"
    using c by (simp add: logger_ok_def references_session_def)
  have hc: "http_create_session reply (posts s) = (rid, posts s @ [POST_sessions VARIANT_ID])"
    using rid by (simp add: http_create_session_def)
  show ?thesis
  proof (cases rid)
    case None
    show ?thesis
      using ok1 None
      by (simp add: follow_line_entry_def tel_start_session_def st hc Let_def
                    tel_log_event[where sid = sid])
  next
    case (Some i)
    show ?thesis
      using ok1 Some
      by (simp add: follow_line_entry_def tel_start_session_def st hc Let_def
                    tel_log_event[where sid = sid] http_log_event_def)
  qed
qed

lemma end_fresh_row':
  "s_id row = lastrowid rows \<Longrightarrow>
   map (\<lambda>r. if s_id r = lastrowid rows then f r else r) (rows @ [row]) = rows @ [f row]"
  using end_fresh_row[of rows f row] by simp

lemma tel_end_session:
  "logger_ok (telemetry s) sid \<Longrightarrow> st \<in> set [''running'', ''completed'', ''error''] \<Longrightarrow>
   tel ''end_session'' (end_session st) s =
     (Inr (), s\<lparr>telemetry := (telemetry s)\<lparr>sessions :=
         map (\<lambda>r. if s_id r = sid then r\<lparr>s_ended_at := Some (clock (telemetry s)), s_status := st\<rparr> else r)
             (sessions (telemetry s)),
         clock := Suc (clock (telemetry s))\<rparr>,
       calls := calls s @ [(''end_session'',
         map (\<lambda>r. if s_id r = sid then r\<lparr>s_ended_at := Some (clock (telemetry s)), s_status := st\<rparr> else r)
             (sessions (telemetry s)))]\<rparr>)"
  by (simp add: tel_def end_session_def logger_ok_def Let_def)

lemma follow_line_good:
  assumes c: "conn (telemetry s)" and wc: "well_calibrated (sensor s)"
    and fr: "\<forall>raw\<in>set ms. nat (sensor_n (sensor s)) \<le> length raw"
    and sid: "sid = lastrowid (sessions (telemetry s))"
    and rid: "rid = fst (http_create_session reply (posts s))"
  shows "\<exists>s' rs cs es ts te. follow_line ms label reply rnd s = (Inr (), s')
      \<and> sensor s' = sensor s
      \<and> sessions (telemetry s') = sessions (telemetry s) @
            [\<lparr>s_id = sid, s_variant_id = VARIANT_ID, s_started_at = clock (telemetry s),
              s_ended_at = Some ts, s_status = ''completed''\<rparr>]
      \<and> sensor_readings (telemetry s') = sensor_readings (telemetry s) @ rs
      \<and> map r_sensor_type rs = concat (replicate (length ms) (sensor_names (nat (sensor_n (sensor s)))))
      \<and> (\<forall>r\<in>set rs. r_session_id r = sid)
      \<and> actuator_commands (telemetry s') = actuator_commands (telemetry s) @ cs
      \<and> map c_actuator_type cs = concat (replicate (length ms) [''Motor_L'', ''Motor_R''])
      \<and> (\<forall>c\<in>set cs. c_session_id c = sid)
      \<and> events (telemetry s') = events (telemetry s) @
            (if rid = None
             then [\<lparr>e_session_id = sid, e_timestamp = Suc (clock (telemetry s)), e_event_type = ''server'',
                     e_severity = ''warning'', e_message = ServerUnreachable\<rparr>,
                   \<lparr>e_session_id = sid, e_timestamp = Suc (Suc (clock (telemetry s))),
                     e_event_type = ''scenario_start_local'', e_severity = ''info'',
                     e_message = ScenarioStartLocal label\<rparr>]
             else [\<lparr>e_session_id = sid, e_timestamp = Suc (clock (telemetry s)),
                     e_event_type = ''scenario_start_local'', e_severity = ''info'',
                     e_message = ScenarioStartLocal label\<rparr>])
            @ es @ [te]
      \<and> (\<forall>e\<in>set es. e_event_type e = ''line_tracking'' \<and> e_severity e = ''warning'')
      \<and> e_event_type te = ''scenario_end'' \<and> e_severity te = ''info''
      \<and> (rid = None \<longrightarrow> posts s' = posts s @ [POST_sessions VARIANT_ID])"
proof -
  let ?row = "\<lparr>s_id = sid, s_variant_id = VARIANT_ID, s_started_at = clock (telemetry s),
              s_ended_at = None, s_status = ''running''\<rparr>"
  let ?pre = "(if rid = None
             then [\<lparr>e_session_id = sid, e_timestamp = Suc (clock (telemetry s)), e_event_type = ''server'',
                     e_severity = ''warning'', e_message = ServerUnreachable\<rparr>,
                   \<lparr>e_session_id = sid, e_timestamp = Suc (Suc (clock (telemetry s))),
                     e_event_type = ''scenario_start_local'', e_severity = ''info'',
                     e_message = ScenarioStartLocal label\<rparr>]
             else [\<lparr>e_session_id = sid, e_timestamp = Suc (clock (telemetry s)),
                     e_event_type = ''scenario_start_local'', e_severity = ''info'',
                     e_message = ScenarioStartLocal label\<rparr>])"
  obtain s0 where en: "follow_line_entry label reply s = (Inr rid, s0)"
    and sen0: "sensor s0 = sensor s"
    and ok0: "logger_ok (telemetry s0) sid"
    and ss0: "sessions (telemetry s0) = sessions (telemetry s) @ [?row]"
    and sr0: "sensor_readings (telemetry s0) = sensor_readings (telemetry s)"
    and ac0: "actuator_commands (telemetry s0) = actuator_commands (telemetry s)"
    and ev0: "events (telemetry s0) = events (telemetry s) @ ?pre"
    and ps0: "posts s0 = posts s @ POST_sessions VARIANT_ID #
            (case rid of None \<Rightarrow> [] | Some i \<Rightarrow> [POST_events i ''scenario_start'' ''info'' (ScenarioStart label)])"
    using entry_run[OF c sid rid, of label]
    by (elim exE conjE) (rule that; assumption)
  have wc0: "well_calibrated (sensor s0)" using wc sen0 by simp
  have fr0: "\<forall>raw\<in>set ms. nat (sensor_n (sensor s0)) \<le> length raw" using fr sen0 by simp
  obtain c1 s1 rs cs es where
    lp: "follow_line_loop rid rnd 1 ms (0, 0) s0 = (Inr c1, s1)"
    and a1: "appended s0 s1 rs cs es"
    and f1: "map r_sensor_type rs = concat (replicate (length ms) (sensor_names (nat (sensor_n (sensor s)))))"
      "\<forall>r\<in>set rs. r_session_id r = sid"
      "map c_actuator_type cs = concat (replicate (length ms) [''Motor_L'', ''Motor_R''])"
      "\<forall>c\<in>set cs. c_session_id c = sid"
      "\<forall>e\<in>set es. e_event_type e = ''line_tracking'' \<and> e_severity e = ''warning''"
      "rid = None \<longrightarrow> posts s1 = posts s0"
    using loop_good[OF ok0 wc0 fr0, of rid rnd 1 "(0, 0)"] unfolding sen0
    by (elim exE conjE) (rule that; assumption)
  have ok1: "logger_ok (telemetry s1) sid"
    using ok0 appended_logger_ok[OF a1] by simp
  let ?t1 = "telemetry s1"
  let ?te = "\<lparr>e_session_id = sid, e_timestamp = clock ?t1, e_event_type = ''scenario_end'',
              e_severity = ''info'', e_message = ScenarioEnd (snd c1)\<rparr>"
  let ?s' = "s1\<lparr>telemetry := ?t1\<lparr>events := events ?t1 @ [?te],
                  sessions := map (\<lambda>r. if s_id r = sid then r\<lparr>s_ended_at := Some (Suc (clock ?t1)), s_status := ''completed''\<rparr> else r) (sessions ?t1),
                  clock := Suc (Suc (clock ?t1))\<rparr>,
                posts := http_end_session rid ''completed'' (http_log_event rid ''scenario_end'' ''info'' (ScenarioEnd (snd c1)) (posts s1)),
                calls := calls s1 @ [(''log_event'', sessions ?t1),
                  (''end_session'', map (\<lambda>r. if s_id r = sid then r\<lparr>s_ended_at := Some (Suc (clock ?t1)), s_status := ''completed''\<rparr> else r) (sessions ?t1))]\<rparr>"
  have tr: "follow_line_try rid rnd ms s0 = (Inr (), ?s')"
    unfolding follow_line_try_def lp using ok1
    by (simp add: tel_log_event[where sid = sid] tel_end_session[where sid = sid])
  have run: "follow_line ms label reply rnd s = (Inr (), ?s')"
    by (simp add: follow_line_def en tr)
  have ss1: "sessions ?t1 = sessions (telemetry s) @ [?row]"
    using a1 ss0 by (simp add: appended_def)
  have ss': "sessions (telemetry ?s') = sessions (telemetry s) @
            [\<lparr>s_id = sid, s_variant_id = VARIANT_ID, s_started_at = clock (telemetry s),
              s_ended_at = Some (Suc (clock ?t1)), s_status = ''completed''\<rparr>]"
    unfolding sid using end_fresh_row'[of ?row "sessions (telemetry s)"]
    by (simp add: ss1 sid)
  have ps': "rid = None \<longrightarrow> posts ?s' = posts s @ [POST_sessions VARIANT_ID]"
    using f1(6) ps0 by (simp add: http_end_session_def http_log_event_def)
  have ev': "events (telemetry ?s') = events (telemetry s) @ ?pre @ es @ [?te]"
    using a1 ev0 by (simp add: appended_def)
  have sr': "sensor_readings (telemetry ?s') = sensor_readings (telemetry s) @ rs"
    using a1 sr0 by (simp add: appended_def)
  have ac': "actuator_commands (telemetry ?s') = actuator_commands (telemetry s) @ cs"
    using a1 ac0 by (simp add: appended_def)
  have sen': "sensor ?s' = sensor s" using a1 sen0 by (simp add: appended_def)
  show ?thesis
    apply (rule exI[of _ ?s'], rule exI[of _ rs], rule exI[of _ cs], rule exI[of _ es],
           rule exI[of _ "Suc (clock ?t1)"], rule exI[of _ ?te])
    apply (intro conjI)
    using run sen' ss' sr' f1 ac' ev' ps' by simp_all
qed

subsection \<open>The robot's own calibration\<close>

text \<open>
  The calibration pass of the robot, with reference levels 1.0 and 0.0 and draws in
  \<open>[0, 1)\<close>, stores white levels of at least 0.95 and black levels of at most
  0.05: the sensor array is well calibrated afterwards, as it is after construction.
\<close>

lemma calibrate_loop_bounds:
  assumes "distinct is"
    and "\<forall>i\<in>set is. i < length wl \<and> i < length bl \<and> i < length (white sen) \<and> i < length (black sen)"
    and "\<forall>i\<in>set is. wl ! i = 1 \<and> bl ! i = 0"
    and "\<forall>k. 0 \<le> rnd k \<and> rnd k < 1"
  shows "\<exists>sen'. calibrate_loop wl bl rnd is sen = (None, sen')
      \<and> sensor_n sen' = sensor_n sen
      \<and> length (white sen') = length (white sen) \<and> length (black sen') = length (black sen)
      \<and> (\<forall>i\<in>set is. 0.95 \<le> white sen' ! i \<and> black sen' ! i \<le> 0.05)
      \<and> (\<forall>i. i \<notin> set is \<longrightarrow> white sen' ! i = white sen ! i \<and> black sen' ! i = black sen ! i)"
  using assms
proof (induction "is" arbitrary: sen)
  case Nil
  then show ?case by simp
next
  case (Cons i "is")
  let ?w = "min 1 (max 0 (wl ! i + uniform (- 0.05) 0 (rnd (2 * i))))"
  let ?b = "min 1 (max 0 (bl ! i + uniform 0 0.05 (rnd (2 * i + 1))))"
  let ?sen1 = "sen\<lparr>white := (white sen)[i := ?w], black := (black sen)[i := ?b]\<rparr>"
  have ch: "calibrate_channel wl bl rnd i sen = (None, ?sen1)"
    using Cons.prems(2) by (simp add: calibrate_channel_def getitem_def Let_def)
  have r1: "0 \<le> rnd (2 * i)" "rnd (2 * i) < 1" "0 \<le> rnd (2 * i + 1)" "rnd (2 * i + 1) < 1"
    using Cons.prems(4) by auto
  have wi: "wl ! i = 1" "bl ! i = 0" using Cons.prems(3) by auto
  have w: "0.95 \<le> ?w" using r1 by (simp add: wi uniform_def)
  have b: "?b \<le> 0.05" using r1 by (simp add: wi uniform_def)
  have p1: "distinct is" and ni: "i \<notin> set is" using Cons.prems(1) by auto
  have p2: "\<forall>j\<in>set is. j < length wl \<and> j < length bl \<and> j < length (white ?sen1) \<and> j < length (black ?sen1)"
    using Cons.prems(2) by simp
  have p3: "\<forall>j\<in>set is. wl ! j = 1 \<and> bl ! j = 0" using Cons.prems(3) by simp
  from Cons.IH[OF p1 p2 p3 Cons.prems(4)] obtain sen' where
    lp: "calibrate_loop wl bl rnd is ?sen1 = (None, sen')"
    and n: "sensor_n sen' = sensor_n ?sen1"
    and l: "length (white sen') = length (white ?sen1)" "length (black sen') = length (black ?sen1)"
    and bd: "\<forall>j\<in>set is. 0.95 \<le> white sen' ! j \<and> black sen' ! j \<le> 0.05"
    and un: "\<forall>j. j \<notin> set is \<longrightarrow> white sen' ! j = white ?sen1 ! j \<and> black sen' ! j = black ?sen1 ! j"
    by (elim exE conjE) (rule that; assumption)
  have il: "i < length (white sen)" "i < length (black sen)" using Cons.prems(2) by auto
  have atw: "white sen' ! i = ?w" "black sen' ! i = ?b"
    using un ni il by simp_all
  have run: "calibrate_loop wl bl rnd (i # is) sen = (None, sen')"
    using ch lp by simp
  have pi: "0.95 \<le> white sen' ! i \<and> black sen' ! i \<le> 0.05"
    unfolding atw using w b by (rule conjI)
  have bd': "\<forall>j\<in>set (i # is). 0.95 \<le> white sen' ! j \<and> black sen' ! j \<le> 0.05"
    using bd pi by auto
  have un': "\<forall>j. j \<notin> set (i # is) \<longrightarrow> white sen' ! j = white sen ! j \<and> black sen' ! j = black sen ! j"
    using un by simp
  show ?case
    apply (rule exI[of _ sen'])
    using run n l bd' un' by simp
qed

lemma calibrate_well_calibrated:
  assumes c: "conn (telemetry s)" and n1: "1 \<le> sensor_n (sensor s)"
    and lw: "length (white (sensor s)) = nat (sensor_n (sensor s))"
    and lb: "length (black (sensor s)) = nat (sensor_n (sensor s))"
    and dr: "\<forall>k. 0 \<le> draws k \<and> draws k < 1"
  shows "\<exists>s'. calibrate draws s = (Inr (), s') \<and> well_calibrated (sensor s')"
proof -
  let ?t = "telemetry s"
  let ?n = "nat (sensor_n (sensor s))"
  let ?sid = "lastrowid (sessions ?t)"
  let ?row = "\<lparr>s_id = ?sid, s_variant_id = VARIANT_ID, s_started_at = clock ?t,
              s_ended_at = None, s_status = ''running''\<rparr>"
  let ?t1 = "?t\<lparr>sessions := sessions ?t @ [?row], session_id := Some ?sid, clock := Suc (clock ?t)\<rparr>"
  have st: "start_session VARIANT_ID ?t = Inr (?sid, ?t1)"
    using c by (simp add: start_session_def Let_def)
  have ok1: "logger_ok ?t1 ?sid"
    using c by (simp add: logger_ok_def references_session_def)
  have h2: "\<forall>i\<in>set [0..<?n]. i < length (replicate ?n (1::real)) \<and> i < length (replicate ?n (0::real))
           \<and> i < length (white (sensor s)) \<and> i < length (black (sensor s))"
    using lw lb by simp
  have h3: "\<forall>i\<in>set [0..<?n]. replicate ?n (1::real) ! i = 1 \<and> replicate ?n (0::real) ! i = 0"
    by simp
  from calibrate_loop_bounds[OF distinct_upt h2 h3 dr]
  obtain sen' where cl0: "calibrate_loop (replicate ?n 1) (replicate ?n 0) draws [0..<?n] (sensor s) = (None, sen')"
    and n: "sensor_n sen' = sensor_n (sensor s)"
    and l: "length (white sen') = length (white (sensor s))" "length (black sen') = length (black (sensor s))"
    and bd: "\<forall>i\<in>set [0..<?n]. 0.95 \<le> white sen' ! i \<and> black sen' ! i \<le> 0.05"
    by (elim exE conjE) (rule that; assumption)
  have cl: "IRLineSensor_calibrate (replicate ?n 1) (replicate ?n 0) draws (sensor s) = (None, sen')"
    by (simp add: IRLineSensor_calibrate_def cl0)
  have nz: "white sen' ! i - black sen' ! i + 1 / 1000000 \<noteq> 0" if "i < ?n" for i
  proof -
    from that bd have "0.95 \<le> white sen' ! i" "black sen' ! i \<le> 0.05" by simp_all
    then have "0 < white sen' ! i - black sen' ! i + 1 / 1000000" by simp
    then show ?thesis by simp
  qed
  have wc: "well_calibrated sen'"
    unfolding well_calibrated_def using n n1 l lw lb nz by simp
  obtain s' where run: "calibrate draws s = (Inr (), s')" and sen: "sensor s' = sen'"
    using ok1
    by (simp add: calibrate_def tel_start_session_def st cl Let_def tel_log_event[where sid = ?sid]
                  tel_end_session[where sid = ?sid])
  with wc show ?thesis by auto
qed

subsection \<open>Row counts and the unreachable collector\<close>

lemma length_concat_replicate: "length (concat (replicate k xs)) = k * length xs"
  by (induction k) simp_all

text \<open>
  C7. On a recorder with an open connection, a run of \<open>follow_line\<close> over \<open>K\<close>
  frames, each with at least one value per sensor, with \<open>N \<ge> 1\<close> sensors whose
  calibration lets every channel be read, returns normally and appends to the local
  sink exactly \<open>K * N\<close> sensor readings, \<open>K\<close> batches named \<open>IR_1\<close>, ...,
  \<open>IR_N\<close>, and exactly \<open>2 * K\<close> actuator commands, \<open>K\<close> pairs \<open>Motor_L\<close>,
  \<open>Motor_R\<close>; this holds for every answer of the remote collector, no answer
  included.
\<close>

theorem follow_line_row_counts:
  assumes "conn (telemetry s)" and "well_calibrated (sensor s)"
    and "\<forall>raw\<in>set measurements. nat (sensor_n (sensor s)) \<le> length raw"
  shows "\<exists>s' rs cs. follow_line measurements label reply rnd s = (Inr (), s')
      \<and> sensor_readings (telemetry s') = sensor_readings (telemetry s) @ rs
      \<and> length rs = length measurements * nat (sensor_n (sensor s))
      \<and> map r_sensor_type rs =
          concat (replicate (length measurements) (sensor_names (nat (sensor_n (sensor s)))))
      \<and> actuator_commands (telemetry s') = actuator_commands (telemetry s) @ cs
      \<and> length cs = 2 * length measurements
      \<and> map c_actuator_type cs = concat (replicate (length measurements) [''Motor_L'', ''Motor_R''])"
proof -
  from follow_line_good[OF assms refl refl, of label reply rnd]
  obtain s' rs cs where run: "follow_line measurements label reply rnd s = (Inr (), s')"
    and sr: "sensor_readings (telemetry s') = sensor_readings (telemetry s) @ rs"
    and nm: "map r_sensor_type rs =
          concat (replicate (length measurements) (sensor_names (nat (sensor_n (sensor s)))))"
    and ac: "actuator_commands (telemetry s') = actuator_commands (telemetry s) @ cs"
    and cm: "map c_actuator_type cs = concat (replicate (length measurements) [''Motor_L'', ''Motor_R''])"
    by (elim exE conjE) (rule that; assumption)
  have "length (map r_sensor_type rs) = length measurements * nat (sensor_n (sensor s))"
    unfolding nm by (simp add: length_concat_replicate sensor_names_def)
  then have l1: "length rs = length measurements * nat (sensor_n (sensor s))" by simp
  have "length (map c_actuator_type cs) = 2 * length measurements"
    unfolding cm by (simp add: length_concat_replicate)
  then have l2: "length cs = 2 * length measurements" by simp
  show ?thesis
    using run sr nm ac cm l1 l2 by blast
qed

lemma init_well_calibrated: "1 \<le> n \<Longrightarrow> well_calibrated (IRLineSensor_init n)"
  by (simp add: well_calibrated_def IRLineSensor_init_def)

theorem follow_line_row_counts_witness:
  "conn (telemetry (LineFollowerRobot_init 2 fresh_logger []))
   \<and> (\<exists>s' rs cs.
         follow_line [[0.9, 0.2], [0.3, 0.8], [0.5, 0.5]] ''run'' NoReply (\<lambda>step. zero_draws)
           (LineFollowerRobot_init 2 fresh_logger []) = (Inr (), s')
         \<and> sensor_readings (telemetry s') = rs \<and> length rs = 6
         \<and> map r_sensor_type rs = [''IR_1'', ''IR_2'', ''IR_1'', ''IR_2'', ''IR_1'', ''IR_2'']
         \<and> actuator_commands (telemetry s') = cs \<and> length cs = 6
         \<and> map c_actuator_type cs =
             [''Motor_L'', ''Motor_R'', ''Motor_L'', ''Motor_R'', ''Motor_L'', ''Motor_R''])"
proof -
  let ?s = "LineFollowerRobot_init 2 fresh_logger []"
  have h1: "conn (telemetry ?s)" by (simp add: LineFollowerRobot_init_def fresh_logger_def)
  have h2: "well_calibrated (sensor ?s)"
    by (simp add: LineFollowerRobot_init_def init_well_calibrated)
  have h3: "\<forall>raw\<in>set [[0.9, 0.2], [0.3, 0.8], [0.5, 0.5 :: real]].
         nat (sensor_n (sensor ?s)) \<le> length raw"
    by (simp add: LineFollowerRobot_init_def IRLineSensor_init_def)
  have nm: "sensor_names (Suc (Suc 0)) = [''IR_1'', ''IR_2'']"
    by code_simp
  from follow_line_row_counts [OF h1 h2 h3, of "''run''" NoReply "\<lambda>step. zero_draws"]
  show ?thesis
    using h1 h2 h3
    by (simp add: LineFollowerRobot_init_def IRLineSensor_init_def fresh_logger_def nm
                  eval_nat_numeral)
qed

text \<open>
  C1. When the call that creates the remote session yields no id (no answer, an
  answer that is not a success, or a success without an id), every remote telemetry
  call with the absent id leaves the requests sent unchanged, and a run over
  well-formed frames records exactly one event of type \<open>server\<close>, of severity
  \<open>warning\<close> (every other warning of the run is a \<open>line_tracking\<close> one), sends
  nothing but the request that tried to create the session, processes every step
  (\<open>K * N\<close> readings are appended) and ends the local session with status
  \<open>completed\<close>.
\<close>

theorem follow_line_remote_absent:
  assumes "conn (telemetry s)" and "well_calibrated (sensor s)"
    and "\<forall>raw\<in>set measurements. nat (sensor_n (sensor s)) \<le> length raw"
    and "fst (http_create_session reply (posts s)) = None"
  shows "http_log_sensor None sensor_type val unit ps = ps
      \<and> http_log_actuator None actuator_type command cstatus ps = ps
      \<and> http_log_event None event_type severity msg ps = ps
      \<and> http_end_session None status ps = ps
      \<and> fst (http_create_session NoReply ps) = None
      \<and> fst (http_create_session (Reply False body_id) ps) = None
      \<and> fst (http_create_session (Reply True None) ps) = None
      \<and> (\<exists>s' es rs ts.
            follow_line measurements label reply rnd s = (Inr (), s')
          \<and> posts s' = posts s @ [POST_sessions VARIANT_ID]
          \<and> events (telemetry s') = events (telemetry s) @ es
          \<and> filter (\<lambda>e. e_event_type e = ''server'') es =
               [\<lparr>e_session_id = lastrowid (sessions (telemetry s)),
                 e_timestamp = Suc (clock (telemetry s)), e_event_type = ''server'',
                 e_severity = ''warning'', e_message = ServerUnreachable\<rparr>]
          \<and> (\<forall>e\<in>set es. e_severity e = ''warning'' \<longrightarrow>
                 e_event_type e = ''server'' \<or> e_event_type e = ''line_tracking'')
          \<and> sensor_readings (telemetry s') = sensor_readings (telemetry s) @ rs
          \<and> length rs = length measurements * nat (sensor_n (sensor s))
          \<and> sessions (telemetry s') = sessions (telemetry s) @
               [\<lparr>s_id = lastrowid (sessions (telemetry s)), s_variant_id = VARIANT_ID,
                 s_started_at = clock (telemetry s), s_ended_at = Some ts,
                 s_status = ''completed''\<rparr>])"
proof -
  let ?sid = "lastrowid (sessions (telemetry s))"
  let ?srv = "\<lparr>e_session_id = ?sid, e_timestamp = Suc (clock (telemetry s)), e_event_type = ''server'',
                 e_severity = ''warning'', e_message = ServerUnreachable\<rparr>"
  let ?loc = "\<lparr>e_session_id = ?sid, e_timestamp = Suc (Suc (clock (telemetry s))),
                     e_event_type = ''scenario_start_local'', e_severity = ''info'',
                     e_message = ScenarioStartLocal label\<rparr>"
  let ?rid = "fst (http_create_session reply (posts s))"
  from follow_line_good[OF assms(1-3) refl refl, of label reply rnd]
  obtain s' rs es ts te where run: "follow_line measurements label reply rnd s = (Inr (), s')"
    and ss: "sessions (telemetry s') = sessions (telemetry s) @
            [\<lparr>s_id = ?sid, s_variant_id = VARIANT_ID, s_started_at = clock (telemetry s),
              s_ended_at = Some ts, s_status = ''completed''\<rparr>]"
    and sr: "sensor_readings (telemetry s') = sensor_readings (telemetry s) @ rs"
    and nm: "map r_sensor_type rs =
          concat (replicate (length measurements) (sensor_names (nat (sensor_n (sensor s)))))"
    and ev0: "events (telemetry s') = events (telemetry s) @
            (if ?rid = None
             then [\<lparr>e_session_id = ?sid, e_timestamp = Suc (clock (telemetry s)), e_event_type = ''server'',
                     e_severity = ''warning'', e_message = ServerUnreachable\<rparr>,
                   \<lparr>e_session_id = ?sid, e_timestamp = Suc (Suc (clock (telemetry s))),
                     e_event_type = ''scenario_start_local'', e_severity = ''info'',
                     e_message = ScenarioStartLocal label\<rparr>]
             else [\<lparr>e_session_id = ?sid, e_timestamp = Suc (clock (telemetry s)),
                     e_event_type = ''scenario_start_local'', e_severity = ''info'',
                     e_message = ScenarioStartLocal label\<rparr>])
            @ es @ [te]"
    and lt: "\<forall>e\<in>set es. e_event_type e = ''line_tracking'' \<and> e_severity e = ''warning''"
    and te: "e_event_type te = ''scenario_end''" "e_severity te = ''info''"
    and ps0: "?rid = None \<longrightarrow> posts s' = posts s @ [POST_sessions VARIANT_ID]"
    by (elim exE conjE) (rule that; assumption)
  have ev: "events (telemetry s') = events (telemetry s) @ [?srv, ?loc] @ es @ [te]"
    using ev0 assms(4) by simp
  have ps: "posts s' = posts s @ [POST_sessions VARIANT_ID]"
    using ps0 assms(4) by simp
  have "length (map r_sensor_type rs) = length measurements * nat (sensor_n (sensor s))"
    unfolding nm by (simp add: length_concat_replicate sensor_names_def)
  then have l1: "length rs = length measurements * nat (sensor_n (sensor s))" by simp
  have f0: "filter (\<lambda>e. e_event_type e = ''server'') es = []"
    using lt by (auto simp: filter_empty_conv)
  have f1: "filter (\<lambda>e. e_event_type e = ''server'') ([?srv, ?loc] @ es @ [te]) = [?srv]"
    using f0 te by simp
  have w: "\<forall>e\<in>set ([?srv, ?loc] @ es @ [te]). e_severity e = ''warning'' \<longrightarrow>
                 e_event_type e = ''server'' \<or> e_event_type e = ''line_tracking''"
    using lt te by auto
  have run': "\<exists>s' es rs ts.
            follow_line measurements label reply rnd s = (Inr (), s')
          \<and> posts s' = posts s @ [POST_sessions VARIANT_ID]
          \<and> events (telemetry s') = events (telemetry s) @ es
          \<and> filter (\<lambda>e. e_event_type e = ''server'') es = [?srv]
          \<and> (\<forall>e\<in>set es. e_severity e = ''warning'' \<longrightarrow>
                 e_event_type e = ''server'' \<or> e_event_type e = ''line_tracking'')
          \<and> sensor_readings (telemetry s') = sensor_readings (telemetry s) @ rs
          \<and> length rs = length measurements * nat (sensor_n (sensor s))
          \<and> sessions (telemetry s') = sessions (telemetry s) @
               [\<lparr>s_id = ?sid, s_variant_id = VARIANT_ID,
                 s_started_at = clock (telemetry s), s_ended_at = Some ts,
                 s_status = ''completed''\<rparr>]"
    apply (rule exI[of _ s'], rule exI[of _ "[?srv, ?loc] @ es @ [te]"], rule exI[of _ rs],
           rule exI[of _ ts])
    apply (intro conjI)
    using run ps ev f1 w sr l1 ss by blast+
  show ?thesis
    using run' by (simp add: http_log_sensor_def http_log_actuator_def http_log_event_def
        http_end_session_def http_create_session_def)
qed

theorem follow_line_remote_absent_witness:
  "conn (telemetry (LineFollowerRobot_init 2 fresh_logger []))
   \<and> fst (http_create_session NoReply (posts (LineFollowerRobot_init 2 fresh_logger []))) = None
   \<and> (\<exists>s' es rs ts.
         follow_line [[0.9, 0.2], [0.5, 0.5]] ''run'' NoReply (\<lambda>step. zero_draws)
           (LineFollowerRobot_init 2 fresh_logger []) = (Inr (), s')
         \<and> posts s' = [POST_sessions 1]
         \<and> events (telemetry s') = es
         \<and> filter (\<lambda>e. e_event_type e = ''server'') es =
              [\<lparr>e_session_id = 1, e_timestamp = 1, e_event_type = ''server'',
                e_severity = ''warning'', e_message = ServerUnreachable\<rparr>]
         \<and> sensor_readings (telemetry s') = rs \<and> length rs = 4
         \<and> sessions (telemetry s') =
              [\<lparr>s_id = 1, s_variant_id = 1, s_started_at = 0, s_ended_at = Some ts,
                s_status = ''completed''\<rparr>])"
proof -
  let ?s = "LineFollowerRobot_init 2 fresh_logger []"
  have h1: "conn (telemetry ?s)" by (simp add: LineFollowerRobot_init_def fresh_logger_def)
  have h2: "well_calibrated (sensor ?s)"
    by (simp add: LineFollowerRobot_init_def init_well_calibrated)
  have h3: "\<forall>raw\<in>set [[0.9, 0.2], [0.5, 0.5 :: real]].
         nat (sensor_n (sensor ?s)) \<le> length raw"
    by (simp add: LineFollowerRobot_init_def IRLineSensor_init_def)
  have h4: "fst (http_create_session NoReply (posts ?s)) = None"
    by (simp add: http_create_session_def)
  from follow_line_remote_absent [OF h1 h2 h3 h4, where label = "''run''" and rnd = "\<lambda>step. zero_draws",
          THEN conjunct2, THEN conjunct2, THEN conjunct2, THEN conjunct2,
          THEN conjunct2, THEN conjunct2, THEN conjunct2]
  have "\<exists>s' es rs ts.
         follow_line [[0.9, 0.2], [0.5, 0.5]] ''run'' NoReply (\<lambda>step. zero_draws) ?s = (Inr (), s')
         \<and> posts s' = [POST_sessions 1]
         \<and> events (telemetry s') = es
         \<and> filter (\<lambda>e. e_event_type e = ''server'') es =
              [\<lparr>e_session_id = 1, e_timestamp = 1, e_event_type = ''server'',
                e_severity = ''warning'', e_message = ServerUnreachable\<rparr>]
         \<and> sensor_readings (telemetry s') = rs \<and> length rs = 4
         \<and> sessions (telemetry s') =
              [\<lparr>s_id = 1, s_variant_id = 1, s_started_at = 0, s_ended_at = Some ts,
                s_status = ''completed''\<rparr>]"
    by (simp add: LineFollowerRobot_init_def IRLineSensor_init_def fresh_logger_def
                  lastrowid_def VARIANT_ID_def) blast
  with h1 h2 h3 h4 show ?thesis by blast
qed

subsection \<open>The life of a session\<close>

lemma end_session_ok:
  "logger_ok t sid \<Longrightarrow> st \<in> set [''running'', ''completed'', ''error''] \<Longrightarrow>
   end_session st t =
     Inr (t\<lparr>sessions := map (\<lambda>r. if s_id r = sid
                                   then r\<lparr>s_ended_at := Some (clock t), s_status := st\<rparr>
                                   else r) (sessions t),
            clock := Suc (clock t)\<rparr>)"
  by (simp add: end_session_def logger_ok_def Let_def)

lemma calibrate_loop_ok:
  "\<forall>i\<in>set is. i < length wl \<and> i < length bl \<and> i < length (white sen) \<and> i < length (black sen) \<Longrightarrow>
   \<exists>sen'. calibrate_loop wl bl rnd is sen = (None, sen')"
proof (induction "is" arbitrary: sen)
  case Nil
  then show ?case by simp
next
  case (Cons i "is")
  let ?w = "min 1 (max 0 (wl ! i + uniform (- 0.05) 0 (rnd (2 * i))))"
  let ?b = "min 1 (max 0 (bl ! i + uniform 0 0.05 (rnd (2 * i + 1))))"
  let ?sen1 = "sen\<lparr>white := (white sen)[i := ?w], black := (black sen)[i := ?b]\<rparr>"
  have ch: "calibrate_channel wl bl rnd i sen = (None, ?sen1)"
    using Cons.prems by (simp add: calibrate_channel_def getitem_def Let_def)
  have "\<forall>j\<in>set is. j < length wl \<and> j < length bl \<and> j < length (white ?sen1) \<and> j < length (black ?sen1)"
    using Cons.prems by simp
  from Cons.IH[OF this] ch show ?case by simp
qed

lemma start_session_run:
  assumes c: "conn (telemetry s)"
    and sid: "sid = lastrowid (sessions (telemetry s))"
  shows "tel_start_session VARIANT_ID s =
     (Inr sid,
      s\<lparr>telemetry := (telemetry s)\<lparr>sessions := sessions (telemetry s) @
            [\<lparr>s_id = sid, s_variant_id = VARIANT_ID, s_started_at = clock (telemetry s),
              s_ended_at = None, s_status = ''running''\<rparr>],
          session_id := Some sid, clock := Suc (clock (telemetry s))\<rparr>,
        calls := calls s @ [(''start_session'', sessions (telemetry s) @
            [\<lparr>s_id = sid, s_variant_id = VARIANT_ID, s_started_at = clock (telemetry s),
              s_ended_at = None, s_status = ''running''\<rparr>])]\<rparr>)"
  using c by (simp add: tel_start_session_def start_session_def sid Let_def)

lemma start_session_keeps:
  assumes c: "conn (telemetry s)"
    and sid: "sid = lastrowid (sessions (telemetry s))"
    and ss: "ss = sessions (telemetry s) @
            [\<lparr>s_id = sid, s_variant_id = VARIANT_ID, s_started_at = clock (telemetry s),
              s_ended_at = None, s_status = ''running''\<rparr>]"
  shows "keeps_session sid ss (calls s @ [(''start_session'', ss)])
           (snd (tel_start_session VARIANT_ID s))"
proof -
  have ok: "logger_ok ((telemetry s)\<lparr>sessions := ss, session_id := Some sid,
                clock := Suc (clock (telemetry s))\<rparr>) sid"
    using c by (simp add: logger_ok_def references_session_def ss)
  have "only_logs ss []" by (simp add: only_logs_def)
  then show ?thesis
    unfolding keeps_session_def start_session_run[OF c sid] ss[symmetric]
    using ok by simp
qed

lemma entry_keeps:
  assumes c: "conn (telemetry s)"
    and sid: "sid = lastrowid (sessions (telemetry s))"
    and ss: "ss = sessions (telemetry s) @
            [\<lparr>s_id = sid, s_variant_id = VARIANT_ID, s_started_at = clock (telemetry s),
              s_ended_at = None, s_status = ''running''\<rparr>]"
  shows "keeps_session sid ss (calls s @ [(''start_session'', ss)])
           (snd (follow_line_entry label reply s))"
proof -
  obtain s1 where t: "tel_start_session VARIANT_ID s = (Inr sid, s1)"
    using start_session_run[OF c sid] by blast
  have k1: "keeps_session sid ss (calls s @ [(''start_session'', ss)]) s1"
    using start_session_keeps[OF c sid ss] by (simp add: t)
  obtain rid ps where hc: "http_create_session reply (posts s1) = (rid, ps)"
    by (cases "http_create_session reply (posts s1)") blast
  show ?thesis
    unfolding follow_line_entry_def t and_then_Inr hc Let_def prod.case
    apply (intro keeps_and_then)
      apply (simp add: k1 keeps_tel_event)
     apply (erule keeps_tel_event)
     apply simp
    apply simp
    done
qed


lemma follow_line_lifecycle:
  assumes c: "conn (telemetry s)"
    and sid: "sid = lastrowid (sessions (telemetry s))"
    and rid: "rid = fst (http_create_session reply (posts s))"
  shows "\<exists>logs ts st s'. follow_line ms label reply rnd s = (Inr (), s')
      \<and> calls s' = calls s @
            (''start_session'', sessions (telemetry s) @
               [\<lparr>s_id = sid, s_variant_id = VARIANT_ID, s_started_at = clock (telemetry s),
                 s_ended_at = None, s_status = ''running''\<rparr>])
            # logs @ [(''end_session'', sessions (telemetry s'))]
      \<and> only_logs (sessions (telemetry s) @
               [\<lparr>s_id = sid, s_variant_id = VARIANT_ID, s_started_at = clock (telemetry s),
                 s_ended_at = None, s_status = ''running''\<rparr>]) logs
      \<and> st = (if isl (fst (follow_line_loop rid rnd 1 ms (0, 0) (snd (follow_line_entry label reply s))))
               then ''error'' else ''completed'')
      \<and> sessions (telemetry s') = sessions (telemetry s) @
            [\<lparr>s_id = sid, s_variant_id = VARIANT_ID, s_started_at = clock (telemetry s),
              s_ended_at = Some ts, s_status = st\<rparr>]"
proof -
  let ?row = "\<lparr>s_id = sid, s_variant_id = VARIANT_ID, s_started_at = clock (telemetry s),
              s_ended_at = None, s_status = ''running''\<rparr>"
  let ?ss = "sessions (telemetry s) @ [?row]"
  let ?base = "calls s @ [(''start_session'', ?ss)]"
  obtain s0 where en: "follow_line_entry label reply s = (Inr rid, s0)"
    using entry_run[OF c sid rid, of label]
    by (elim exE conjE) (rule that; assumption)
  have k0: "keeps_session sid ?ss ?base s0"
    using entry_keeps[OF c sid refl, of label reply] by (simp add: en)
  obtain r s1 where lp: "follow_line_loop rid rnd 1 ms (0, 0) s0 = (r, s1)"
    by (cases "follow_line_loop rid rnd 1 ms (0, 0) s0") blast
  have k1: "keeps_session sid ?ss ?base s1"
    using keeps_loop[OF k0, of rid rnd 1 ms "(0, 0)"] lp by simp
  then have ok1: "logger_ok (telemetry s1) sid" and ss1: "sessions (telemetry s1) = ?ss"
    by (simp_all add: keeps_session_def)
  from k1 obtain logs1 where c1: "calls s1 = ?base @ logs1" and l1: "only_logs ?ss logs1"
    unfolding keeps_session_def by blast
  let ?t1 = "telemetry s1"
  let ?logs = "logs1 @ [(''log_event'', ?ss)]"
  have ll: "only_logs ?ss ?logs"
    using l1 unfolding only_logs_def by simp
  have fresh: "\<And>f. map (\<lambda>r. if s_id r = sid then f r else r) ?ss = sessions (telemetry s) @ [f ?row]"
    unfolding sid using end_fresh_row'[of ?row "sessions (telemetry s)"] by (simp add: sid)
  show ?thesis
  proof (cases r)
    case (Inl e)
    let ?ev = "\<lparr>e_session_id = sid, e_timestamp = clock ?t1, e_event_type = ''exception'',
                e_severity = ''error'', e_message = ScenarioException e\<rparr>"
    let ?tm = "?t1\<lparr>events := events ?t1 @ [?ev], clock := Suc (clock ?t1)\<rparr>"
    let ?fin = "map (\<lambda>r. if s_id r = sid then r\<lparr>s_ended_at := Some (clock ?tm), s_status := ''error''\<rparr> else r) (sessions ?tm)"
    let ?s' = "s1\<lparr>telemetry := ?tm\<lparr>sessions := ?fin, clock := Suc (clock ?tm)\<rparr>,
                posts := http_end_session rid ''error'' (http_log_event rid ''exception'' ''error'' (ScenarioException e) (posts s1)),
                calls := calls s1 @ [(''log_event'', sessions ?t1), (''end_session'', ?fin)]\<rparr>"
    have tr: "follow_line_try rid rnd ms s0 = (Inl e, s1)"
      unfolding follow_line_try_def lp Inl by simp
    have ex: "follow_line_except rid e s1 = (Inr (), ?s')"
      unfolding follow_line_except_def using ok1
      by (simp add: tel_log_event[where sid = sid] tel_end_session[where sid = sid])
    have run: "follow_line ms label reply rnd s = (Inr (), ?s')"
      by (simp add: follow_line_def en tr ex)
    have st: "''error'' = (if isl (fst (follow_line_loop rid rnd 1 ms (0, 0) (snd (follow_line_entry label reply s))))
               then ''error'' else ''completed'')"
      using lp by (simp add: en Inl)
    have fin: "sessions (telemetry ?s') = sessions (telemetry s) @
            [\<lparr>s_id = sid, s_variant_id = VARIANT_ID, s_started_at = clock (telemetry s),
              s_ended_at = Some (clock ?tm), s_status = ''error''\<rparr>]"
      using fresh[of "\<lambda>r. r\<lparr>s_ended_at := Some (clock ?tm), s_status := ''error''\<rparr>"] ss1 by simp
    have cl: "calls ?s' = calls s @ (''start_session'', ?ss) # ?logs @ [(''end_session'', sessions (telemetry ?s'))]"
      using c1 ss1 by simp
    show ?thesis
      apply (rule exI[of _ ?logs], rule exI[of _ "clock ?tm"], rule exI[of _ "''error''"], rule exI[of _ ?s'])
      apply (intro conjI)
      using run cl ll st fin by blast+
  next
    case (Inr cnt)
    let ?ev = "\<lparr>e_session_id = sid, e_timestamp = clock ?t1, e_event_type = ''scenario_end'',
                e_severity = ''info'', e_message = ScenarioEnd (snd cnt)\<rparr>"
    let ?tm = "?t1\<lparr>events := events ?t1 @ [?ev], clock := Suc (clock ?t1)\<rparr>"
    let ?fin = "map (\<lambda>r. if s_id r = sid then r\<lparr>s_ended_at := Some (clock ?tm), s_status := ''completed''\<rparr> else r) (sessions ?tm)"
    let ?s' = "s1\<lparr>telemetry := ?tm\<lparr>sessions := ?fin, clock := Suc (clock ?tm)\<rparr>,
                posts := http_end_session rid ''completed'' (http_log_event rid ''scenario_end'' ''info'' (ScenarioEnd (snd cnt)) (posts s1)),
                calls := calls s1 @ [(''log_event'', sessions ?t1), (''end_session'', ?fin)]\<rparr>"
    have tr: "follow_line_try rid rnd ms s0 = (Inr (), ?s')"
      unfolding follow_line_try_def lp Inr using ok1
      by (simp add: tel_log_event[where sid = sid] tel_end_session[where sid = sid])
    have run: "follow_line ms label reply rnd s = (Inr (), ?s')"
      by (simp add: follow_line_def en tr)
    have st: "''completed'' = (if isl (fst (follow_line_loop rid rnd 1 ms (0, 0) (snd (follow_line_entry label reply s))))
               then ''error'' else ''completed'')"
      using lp by (simp add: en Inr)
    have fin: "sessions (telemetry ?s') = sessions (telemetry s) @
            [\<lparr>s_id = sid, s_variant_id = VARIANT_ID, s_started_at = clock (telemetry s),
              s_ended_at = Some (clock ?tm), s_status = ''completed''\<rparr>]"
      using fresh[of "\<lambda>r. r\<lparr>s_ended_at := Some (clock ?tm), s_status := ''completed''\<rparr>"] ss1 by simp
    have cl: "calls ?s' = calls s @ (''start_session'', ?ss) # ?logs @ [(''end_session'', sessions (telemetry ?s'))]"
      using c1 ss1 by simp
    show ?thesis
      apply (rule exI[of _ ?logs], rule exI[of _ "clock ?tm"], rule exI[of _ "''completed''"], rule exI[of _ ?s'])
      apply (intro conjI)
      using run cl ll st fin by blast+
  qed
qed

lemma calibrate_lifecycle:
  assumes c: "conn (telemetry s)"
    and lw: "nat (sensor_n (sensor s)) \<le> length (white (sensor s))"
    and lb: "nat (sensor_n (sensor s)) \<le> length (black (sensor s))"
    and sid: "sid = lastrowid (sessions (telemetry s))"
  shows "\<exists>logs ts s'. calibrate rnd s = (Inr (), s')
      \<and> calls s' = calls s @
            (''start_session'', sessions (telemetry s) @
               [\<lparr>s_id = sid, s_variant_id = VARIANT_ID, s_started_at = clock (telemetry s),
                 s_ended_at = None, s_status = ''running''\<rparr>])
            # logs @ [(''end_session'', sessions (telemetry s'))]
      \<and> only_logs (sessions (telemetry s) @
               [\<lparr>s_id = sid, s_variant_id = VARIANT_ID, s_started_at = clock (telemetry s),
                 s_ended_at = None, s_status = ''running''\<rparr>]) logs
      \<and> sessions (telemetry s') = sessions (telemetry s) @
            [\<lparr>s_id = sid, s_variant_id = VARIANT_ID, s_started_at = clock (telemetry s),
              s_ended_at = Some ts, s_status = ''completed''\<rparr>]"
proof -
  let ?t = "telemetry s"
  let ?n = "nat (sensor_n (sensor s))"
  let ?row = "\<lparr>s_id = sid, s_variant_id = VARIANT_ID, s_started_at = clock ?t,
              s_ended_at = None, s_status = ''running''\<rparr>"
  let ?ss = "sessions ?t @ [?row]"
  let ?t1 = "?t\<lparr>sessions := ?ss, session_id := Some sid, clock := Suc (clock ?t)\<rparr>"
  have st: "start_session VARIANT_ID ?t = Inr (sid, ?t1)"
    using c by (simp add: start_session_def sid Let_def)
  have ok1: "logger_ok ?t1 sid"
    using c by (simp add: logger_ok_def references_session_def)
  have "\<forall>i\<in>set [0..<?n]. i < length (replicate ?n (1::real)) \<and> i < length (replicate ?n (0::real))
           \<and> i < length (white (sensor s)) \<and> i < length (black (sensor s))"
    using lw lb by simp
  from calibrate_loop_ok[OF this, of rnd]
  obtain sen' where cl: "IRLineSensor_calibrate (replicate ?n 1) (replicate ?n 0) rnd (sensor s) = (None, sen')"
    unfolding IRLineSensor_calibrate_def by blast
  let ?ev = "\<lparr>e_session_id = sid, e_timestamp = clock ?t1, e_event_type = ''calibration'',
                e_severity = ''info'', e_message = CalibrationDone\<rparr>"
  let ?tm = "?t1\<lparr>events := events ?t1 @ [?ev], clock := Suc (clock ?t1)\<rparr>"
  let ?fin = "map (\<lambda>r. if s_id r = sid then r\<lparr>s_ended_at := Some (clock ?tm), s_status := ''completed''\<rparr> else r) (sessions ?tm)"
  let ?s' = "s\<lparr>telemetry := ?tm\<lparr>sessions := ?fin, clock := Suc (clock ?tm)\<rparr>, sensor := sen',
               calls := calls s @ [(''start_session'', ?ss), (''log_event'', ?ss), (''end_session'', ?fin)]\<rparr>"
  have run: "calibrate rnd s = (Inr (), ?s')"
    using ok1
    by (simp add: calibrate_def tel_start_session_def st cl Let_def tel_log_event[where sid = sid]
                  tel_end_session[where sid = sid])
  have fresh: "\<And>f. map (\<lambda>r. if s_id r = sid then f r else r) ?ss = sessions ?t @ [f ?row]"
    unfolding sid using end_fresh_row'[of ?row "sessions ?t"] by (simp add: sid)
  have fin: "sessions (telemetry ?s') = sessions ?t @
            [\<lparr>s_id = sid, s_variant_id = VARIANT_ID, s_started_at = clock ?t,
              s_ended_at = Some (clock ?tm), s_status = ''completed''\<rparr>]"
    using fresh[of "\<lambda>r. r\<lparr>s_ended_at := Some (clock ?tm), s_status := ''completed''\<rparr>"] by simp
  have cs: "calls ?s' = calls s @ (''start_session'', ?ss) # [(''log_event'', ?ss)]
                 @ [(''end_session'', sessions (telemetry ?s'))]"
    by simp
  have ll: "only_logs ?ss [(''log_event'', ?ss)]" by (simp add: only_logs_def)
  show ?thesis
    apply (rule exI[of _ "[(''log_event'', ?ss)]"], rule exI[of _ "clock ?tm"], rule exI[of _ ?s'])
    apply (intro conjI)
    using run cs ll fin by blast+
qed


text \<open>
  C2. On a recorder with an open connection, every run of \<open>follow_line\<close> returns
  normally, and the calls it makes to the recorder are, in this order: one
  \<open>start_session\<close>, which stores the session with status \<open>running\<close> and no
  ended-at; calls of the three logging methods only, each of which leaves the
  sessions table as \<open>start_session\<close> left it; and one \<open>end_session\<close>, the last
  call of the run, which leaves the table the run ends with: the table from before
  the run and the row of the session with ended-at set and status \<open>error\<close> when the
  loop over the steps raised, \<open>completed\<close> when it did not. So the row is written
  three times in all, \<open>running\<close> without ended-at up to the one \<open>end_session\<close>
  call and ended from it on. The same holds for \<open>calibrate\<close>, with status
  \<open>completed\<close>, on a sensor array that has a calibration pair for every channel.
\<close>

theorem session_lifecycle:
  assumes "conn (telemetry s)"
  shows "\<exists>t1. start_session VARIANT_ID (telemetry s) = Inr (lastrowid (sessions (telemetry s)), t1)
      \<and> sessions t1 = sessions (telemetry s) @
            [\<lparr>s_id = lastrowid (sessions (telemetry s)), s_variant_id = VARIANT_ID,
              s_started_at = clock (telemetry s), s_ended_at = None, s_status = ''running''\<rparr>]
      \<and> (\<exists>logs ts st s'. follow_line measurements label reply rnd s = (Inr (), s')
            \<and> calls s' = calls s @ (''start_session'', sessions t1) # logs
                            @ [(''end_session'', sessions (telemetry s'))]
            \<and> only_logs (sessions t1) logs
            \<and> st = (if isl (fst (follow_line_loop (fst (http_create_session reply (posts s))) rnd 1
                                  measurements (0, 0) (snd (follow_line_entry label reply s))))
                     then ''error'' else ''completed'')
            \<and> sessions (telemetry s') = sessions (telemetry s) @
                  [\<lparr>s_id = lastrowid (sessions (telemetry s)), s_variant_id = VARIANT_ID,
                    s_started_at = clock (telemetry s), s_ended_at = Some ts,
                    s_status = st\<rparr>])
      \<and> (nat (sensor_n (sensor s)) \<le> length (white (sensor s))
           \<and> nat (sensor_n (sensor s)) \<le> length (black (sensor s)) \<longrightarrow>
          (\<exists>logs ts s'. calibrate draws s = (Inr (), s')
            \<and> calls s' = calls s @ (''start_session'', sessions t1) # logs
                            @ [(''end_session'', sessions (telemetry s'))]
            \<and> only_logs (sessions t1) logs
            \<and> sessions (telemetry s') = sessions (telemetry s) @
                  [\<lparr>s_id = lastrowid (sessions (telemetry s)), s_variant_id = VARIANT_ID,
                    s_started_at = clock (telemetry s), s_ended_at = Some ts,
                    s_status = ''completed''\<rparr>]))"
proof -
  let ?t = "telemetry s"
  let ?sid = "lastrowid (sessions ?t)"
  let ?row = "\<lparr>s_id = ?sid, s_variant_id = VARIANT_ID, s_started_at = clock ?t,
              s_ended_at = None, s_status = ''running''\<rparr>"
  let ?t1 = "?t\<lparr>sessions := sessions ?t @ [?row], session_id := Some ?sid, clock := Suc (clock ?t)\<rparr>"
  have st: "start_session VARIANT_ID ?t = Inr (?sid, ?t1)"
    using assms by (simp add: start_session_def Let_def)
  have s1: "sessions ?t1 = sessions ?t @ [?row]" by simp
  note fl = follow_line_lifecycle[OF assms refl refl, of measurements label reply rnd]
  have cal: "nat (sensor_n (sensor s)) \<le> length (white (sensor s))
           \<and> nat (sensor_n (sensor s)) \<le> length (black (sensor s)) \<longrightarrow>
          (\<exists>logs ts s'. calibrate draws s = (Inr (), s')
            \<and> calls s' = calls s @ (''start_session'', sessions ?t @ [?row]) # logs
                            @ [(''end_session'', sessions (telemetry s'))]
            \<and> only_logs (sessions ?t @ [?row]) logs
            \<and> sessions (telemetry s') = sessions ?t @
                  [\<lparr>s_id = ?sid, s_variant_id = VARIANT_ID,
                    s_started_at = clock ?t, s_ended_at = Some ts,
                    s_status = ''completed''\<rparr>])"
    using calibrate_lifecycle[OF assms _ _ refl, of draws] by blast
  show ?thesis
    apply (rule exI[of _ ?t1])
    apply (simp only: s1)
    apply (intro conjI)
       apply (rule st)
      apply (rule refl)
     apply (rule fl)
    apply (rule cal)
    done
qed

theorem session_lifecycle_witness:
  "conn (telemetry (LineFollowerRobot_init 2 fresh_logger []))
   \<and> (\<exists>logs ts s'. follow_line [[]] ''run'' NoReply (\<lambda>step. zero_draws)
                  (LineFollowerRobot_init 2 fresh_logger []) = (Inr (), s')
          \<and> calls s' =
               (''start_session'',
                 [\<lparr>s_id = 1, s_variant_id = 1, s_started_at = 0, s_ended_at = None,
                   s_status = ''running''\<rparr>])
               # logs @
               [(''end_session'',
                 [\<lparr>s_id = 1, s_variant_id = 1, s_started_at = 0, s_ended_at = Some ts,
                   s_status = ''error''\<rparr>])]
          \<and> sessions (telemetry s') =
               [\<lparr>s_id = 1, s_variant_id = 1, s_started_at = 0, s_ended_at = Some ts,
                 s_status = ''error''\<rparr>])
   \<and> (\<exists>logs ts s'. follow_line [] ''run'' NoReply (\<lambda>step. zero_draws)
                  (LineFollowerRobot_init 2 fresh_logger []) = (Inr (), s')
          \<and> calls s' =
               (''start_session'',
                 [\<lparr>s_id = 1, s_variant_id = 1, s_started_at = 0, s_ended_at = None,
                   s_status = ''running''\<rparr>])
               # logs @
               [(''end_session'',
                 [\<lparr>s_id = 1, s_variant_id = 1, s_started_at = 0, s_ended_at = Some ts,
                   s_status = ''completed''\<rparr>])]
          \<and> sessions (telemetry s') =
               [\<lparr>s_id = 1, s_variant_id = 1, s_started_at = 0, s_ended_at = Some ts,
                 s_status = ''completed''\<rparr>])
   \<and> (\<exists>logs ts s'. calibrate zero_draws (LineFollowerRobot_init 2 fresh_logger []) = (Inr (), s')
          \<and> calls s' =
               (''start_session'',
                 [\<lparr>s_id = 1, s_variant_id = 1, s_started_at = 0, s_ended_at = None,
                   s_status = ''running''\<rparr>])
               # logs @
               [(''end_session'',
                 [\<lparr>s_id = 1, s_variant_id = 1, s_started_at = 0, s_ended_at = Some ts,
                   s_status = ''completed''\<rparr>])]
          \<and> sessions (telemetry s') =
               [\<lparr>s_id = 1, s_variant_id = 1, s_started_at = 0, s_ended_at = Some ts,
                 s_status = ''completed''\<rparr>])"
proof -
  let ?s = "LineFollowerRobot_init 2 fresh_logger []"
  let ?run = "[\<lparr>s_id = 1, s_variant_id = 1, s_started_at = 0, s_ended_at = None,
                   s_status = ''running''\<rparr>]"
  have h: "conn (telemetry ?s)" by (simp add: LineFollowerRobot_init_def fresh_logger_def)
  have i: "sessions (telemetry ?s) = []" "calls ?s = []" "clock (telemetry ?s) = 0"
    "lastrowid (sessions (telemetry ?s)) = 1"
    by (simp_all add: LineFollowerRobot_init_def fresh_logger_def lastrowid_def)
  have e: "isl (fst (follow_line_loop (fst (http_create_session NoReply (posts ?s))) (\<lambda>step. zero_draws) 1
                                  [[]] (0, 0) (snd (follow_line_entry ''run'' NoReply ?s))))"
    by (simp add: follow_line_step_def read_normalized_def normalize_channel_def getitem_def
          LineFollowerRobot_init_def IRLineSensor_init_def upt_rec follow_line_entry_def
          tel_start_session_def
          start_session_def fresh_logger_def lastrowid_def http_create_session_def tel_def
          log_event_def references_session_def Let_def VARIANT_ID_def)
  have a: "\<exists>logs ts s'. follow_line [[]] ''run'' NoReply (\<lambda>step. zero_draws) ?s = (Inr (), s')
          \<and> calls s' = (''start_session'', ?run) # logs @
               [(''end_session'',
                 [\<lparr>s_id = 1, s_variant_id = 1, s_started_at = 0, s_ended_at = Some ts,
                   s_status = ''error''\<rparr>])]
          \<and> sessions (telemetry s') =
               [\<lparr>s_id = 1, s_variant_id = 1, s_started_at = 0, s_ended_at = Some ts,
                 s_status = ''error''\<rparr>]"
  proof -
    from session_lifecycle [OF h, of "[[]]" "''run''" NoReply "\<lambda>step. zero_draws" zero_draws]
    obtain t1 :: TelemetryLogger and logs ts st s' where
      s1: "sessions t1 = sessions (telemetry ?s) @
            [\<lparr>s_id = lastrowid (sessions (telemetry ?s)), s_variant_id = VARIANT_ID,
              s_started_at = clock (telemetry ?s), s_ended_at = None, s_status = ''running''\<rparr>]"
      and r: "follow_line [[]] ''run'' NoReply (\<lambda>step. zero_draws) ?s = (Inr (), s')"
      and cl: "calls s' = calls ?s @ (''start_session'', sessions t1) # logs
                            @ [(''end_session'', sessions (telemetry s'))]"
      and st: "st = (if isl (fst (follow_line_loop (fst (http_create_session NoReply (posts ?s)))
                                  (\<lambda>step. zero_draws) 1 [[]] (0, 0)
                                  (snd (follow_line_entry ''run'' NoReply ?s))))
                     then ''error'' else ''completed'')"
      and fin: "sessions (telemetry s') = sessions (telemetry ?s) @
                  [\<lparr>s_id = lastrowid (sessions (telemetry ?s)), s_variant_id = VARIANT_ID,
                    s_started_at = clock (telemetry ?s), s_ended_at = Some ts,
                    s_status = st\<rparr>]"
      by (elim exE conjE) (rule that; assumption)
    from e have "st = ''error''" by (subst st) (simp only: if_True)
    with fin have f: "sessions (telemetry s') =
               [\<lparr>s_id = 1, s_variant_id = 1, s_started_at = 0, s_ended_at = Some ts,
                 s_status = ''error''\<rparr>]"
      by (simp add: i VARIANT_ID_def lastrowid_def)
    have g: "calls s' = (''start_session'', ?run) # logs @
               [(''end_session'',
                 [\<lparr>s_id = 1, s_variant_id = 1, s_started_at = 0, s_ended_at = Some ts,
                   s_status = ''error''\<rparr>])]"
      unfolding cl f s1 by (simp add: i VARIANT_ID_def lastrowid_def)
    show ?thesis
      by (rule exI[of _ logs], rule exI[of _ ts], rule exI[of _ s'], intro conjI r g f)
  qed
  have b: "\<exists>logs ts s'. follow_line [] ''run'' NoReply (\<lambda>step. zero_draws) ?s = (Inr (), s')
          \<and> calls s' = (''start_session'', ?run) # logs @
               [(''end_session'',
                 [\<lparr>s_id = 1, s_variant_id = 1, s_started_at = 0, s_ended_at = Some ts,
                   s_status = ''completed''\<rparr>])]
          \<and> sessions (telemetry s') =
               [\<lparr>s_id = 1, s_variant_id = 1, s_started_at = 0, s_ended_at = Some ts,
                 s_status = ''completed''\<rparr>]"
  proof -
    from session_lifecycle [OF h, of "[]" "''run''" NoReply "\<lambda>step. zero_draws" zero_draws]
    obtain t1 :: TelemetryLogger and logs ts st s' where
      s1: "sessions t1 = sessions (telemetry ?s) @
            [\<lparr>s_id = lastrowid (sessions (telemetry ?s)), s_variant_id = VARIANT_ID,
              s_started_at = clock (telemetry ?s), s_ended_at = None, s_status = ''running''\<rparr>]"
      and r: "follow_line [] ''run'' NoReply (\<lambda>step. zero_draws) ?s = (Inr (), s')"
      and cl: "calls s' = calls ?s @ (''start_session'', sessions t1) # logs
                            @ [(''end_session'', sessions (telemetry s'))]"
      and st: "st = (if isl (fst (follow_line_loop (fst (http_create_session NoReply (posts ?s)))
                                  (\<lambda>step. zero_draws) 1 [] (0, 0)
                                  (snd (follow_line_entry ''run'' NoReply ?s))))
                     then ''error'' else ''completed'')"
      and fin: "sessions (telemetry s') = sessions (telemetry ?s) @
                  [\<lparr>s_id = lastrowid (sessions (telemetry ?s)), s_variant_id = VARIANT_ID,
                    s_started_at = clock (telemetry ?s), s_ended_at = Some ts,
                    s_status = st\<rparr>]"
      by (elim exE conjE) (rule that; assumption)
    from st have "st = ''completed''" by simp
    with fin have f: "sessions (telemetry s') =
               [\<lparr>s_id = 1, s_variant_id = 1, s_started_at = 0, s_ended_at = Some ts,
                 s_status = ''completed''\<rparr>]"
      by (simp add: i VARIANT_ID_def lastrowid_def)
    have g: "calls s' = (''start_session'', ?run) # logs @
               [(''end_session'',
                 [\<lparr>s_id = 1, s_variant_id = 1, s_started_at = 0, s_ended_at = Some ts,
                   s_status = ''completed''\<rparr>])]"
      unfolding cl f s1 by (simp add: i VARIANT_ID_def lastrowid_def)
    show ?thesis
      by (rule exI[of _ logs], rule exI[of _ ts], rule exI[of _ s'], intro conjI r g f)
  qed
  have c: "\<exists>logs ts s'. calibrate zero_draws ?s = (Inr (), s')
          \<and> calls s' = (''start_session'', ?run) # logs @
               [(''end_session'',
                 [\<lparr>s_id = 1, s_variant_id = 1, s_started_at = 0, s_ended_at = Some ts,
                   s_status = ''completed''\<rparr>])]
          \<and> sessions (telemetry s') =
               [\<lparr>s_id = 1, s_variant_id = 1, s_started_at = 0, s_ended_at = Some ts,
                 s_status = ''completed''\<rparr>]"
  proof -
    have l: "nat (sensor_n (sensor ?s)) \<le> length (white (sensor ?s))
           \<and> nat (sensor_n (sensor ?s)) \<le> length (black (sensor ?s))"
      by (simp add: LineFollowerRobot_init_def IRLineSensor_init_def)
    from session_lifecycle [OF h, of "[]" "''run''" NoReply "\<lambda>step. zero_draws" zero_draws]
    obtain t1 :: TelemetryLogger where
      s1: "sessions t1 = sessions (telemetry ?s) @
            [\<lparr>s_id = lastrowid (sessions (telemetry ?s)), s_variant_id = VARIANT_ID,
              s_started_at = clock (telemetry ?s), s_ended_at = None, s_status = ''running''\<rparr>]"
      and imp:
      "nat (sensor_n (sensor ?s)) \<le> length (white (sensor ?s))
         \<and> nat (sensor_n (sensor ?s)) \<le> length (black (sensor ?s)) \<longrightarrow>
       (\<exists>logs ts s'. calibrate zero_draws ?s = (Inr (), s')
            \<and> calls s' = calls ?s @ (''start_session'', sessions t1) # logs
                            @ [(''end_session'', sessions (telemetry s'))]
            \<and> only_logs (sessions t1) logs
            \<and> sessions (telemetry s') = sessions (telemetry ?s) @
                  [\<lparr>s_id = lastrowid (sessions (telemetry ?s)), s_variant_id = VARIANT_ID,
                    s_started_at = clock (telemetry ?s), s_ended_at = Some ts,
                    s_status = ''completed''\<rparr>])"
      by (elim exE conjE) (rule that; assumption)
    from imp l have "\<exists>logs ts s'. calibrate zero_draws ?s = (Inr (), s')
            \<and> calls s' = calls ?s @ (''start_session'', sessions t1) # logs
                            @ [(''end_session'', sessions (telemetry s'))]
            \<and> only_logs (sessions t1) logs
            \<and> sessions (telemetry s') = sessions (telemetry ?s) @
                  [\<lparr>s_id = lastrowid (sessions (telemetry ?s)), s_variant_id = VARIANT_ID,
                    s_started_at = clock (telemetry ?s), s_ended_at = Some ts,
                    s_status = ''completed''\<rparr>]"
      by (rule mp)
    then obtain logs ts s' where
      r: "calibrate zero_draws ?s = (Inr (), s')"
      and cl: "calls s' = calls ?s @ (''start_session'', sessions t1) # logs
                            @ [(''end_session'', sessions (telemetry s'))]"
      and fin: "sessions (telemetry s') = sessions (telemetry ?s) @
                  [\<lparr>s_id = lastrowid (sessions (telemetry ?s)), s_variant_id = VARIANT_ID,
                    s_started_at = clock (telemetry ?s), s_ended_at = Some ts,
                    s_status = ''completed''\<rparr>]"
      by (elim exE conjE) (rule that; assumption)
    from fin have f: "sessions (telemetry s') =
               [\<lparr>s_id = 1, s_variant_id = 1, s_started_at = 0, s_ended_at = Some ts,
                 s_status = ''completed''\<rparr>]"
      by (simp add: i VARIANT_ID_def lastrowid_def)
    have g: "calls s' = (''start_session'', ?run) # logs @
               [(''end_session'',
                 [\<lparr>s_id = 1, s_variant_id = 1, s_started_at = 0, s_ended_at = Some ts,
                   s_status = ''completed''\<rparr>])]"
      unfolding cl f s1 by (simp add: i VARIANT_ID_def lastrowid_def)
    show ?thesis
      by (rule exI[of _ logs], rule exI[of _ ts], rule exI[of _ s'], intro conjI r g f)
  qed
  show ?thesis by (intro conjI h a b c)
qed

subsection \<open>One step on the symmetric frame\<close>

lemma frame_normalized:
  "read_normalized (IRLineSensor_init 5) [0.9, 0.6, 0.2, 0.6, 0.9] =
     Inr [900000 / 1000001, 600000 / 1000001, 200000 / 1000001, 600000 / 1000001, 900000 / 1000001]"
  by (simp add: read_normalized_def IRLineSensor_init_def normalize_channel_def getitem_def
                truediv_def upt_rec)

lemma frame_error:
  "lateral_error 5 [900000 / 1000001, 600000 / 1000001, 200000 / 1000001, 600000 / 1000001, 900000 / 1000001] = Inr 0"
  by (simp add: lateral_error_def position_def getitem_def truediv_def upt_rec)

lemma frame_pid:
  "PIDController_update 0 0.1 (PIDController_init 0.8 0.0 0.2) = (Inr 0, PIDController_init 0.8 0.0 0.2)"
  by (simp add: PIDController_update_def PIDController_init_def truediv_def Let_def)

lemma frame_avg:
  "TrackState_avg [900000 / 1000001, 600000 / 1000001, 200000 / 1000001, 600000 / 1000001, 900000 / 1000001]
     = Inr (640000 / 1000001)"
  by (simp add: TrackState_avg_def truediv_def)

lemma frame_track:
  "TrackState_update [900000 / 1000001, 600000 / 1000001, 200000 / 1000001, 600000 / 1000001, 900000 / 1000001]
     = Inr True"
  by (simp add: TrackState_update_def frame_avg)

lemma frame_step:
  assumes ok: "logger_ok (telemetry s) sid" and sen: "sensor s = IRLineSensor_init 5"
    and p: "pid s = PIDController_init 0.8 0.0 0.2"
  shows "\<exists>s'. follow_line_step rid (\<lambda>j. 1 / 2) k [0.9, 0.6, 0.2, 0.6, 0.9] (on, off) s = (Inr (Suc on, off), s')
      \<and> map r_value (sensor_readings (telemetry s')) = map r_value (sensor_readings (telemetry s)) @
            [900000 / 1000001, 600000 / 1000001, 200000 / 1000001, 600000 / 1000001, 900000 / 1000001]
      \<and> map c_command (actuator_commands (telemetry s')) =
            map c_command (actuator_commands (telemetry s)) @ [0.5, 0.5]
      \<and> events (telemetry s') = events (telemetry s)
      \<and> pid s' = pid s"
proof -
  let ?nrm = "[900000 / 1000001, 600000 / 1000001, 200000 / 1000001, 600000 / 1000001, 900000 / 1000001 :: real]"
  have noisy: "map (\<lambda>(j, v). max 0 (min 1 (v + uniform (- 0.05) 0.05 (1 / 2)))) (enumerate 0 [0.9, 0.6, 0.2, 0.6, 0.9 :: real])
      = [0.9, 0.6, 0.2, 0.6, 0.9]"
    by (simp add: uniform_def)
  obtain s1 rs where ls: "log_sensors rid 0 ?nrm s = (Inr (), s1)" and a1: "appended s s1 rs [] []"
    and p1: "pid s1 = pid s" and vl: "map r_value rs = ?nrm"
    using log_sensors_good[OF ok, of rid 0 ?nrm] by (elim exE conjE) (rule that; assumption)
  have ok1: "logger_ok (telemetry s1) sid" using ok appended_logger_ok[OF a1] by simp
  have sen1: "sensor s1 = sensor s" using a1 by (simp add: appended_def)
  let ?t1 = "telemetry s1"
  let ?c1 = "\<lparr>c_session_id = sid, c_actuator_type = ''Motor_L'', c_timestamp = clock ?t1, c_command = 1 / 2, c_status = ''sent''\<rparr>"
  let ?c2 = "\<lparr>c_session_id = sid, c_actuator_type = ''Motor_R'', c_timestamp = Suc (clock ?t1), c_command = 1 / 2, c_status = ''sent''\<rparr>"
  let ?s' = "s1\<lparr>pid := PIDController_init 0.8 0.0 0.2, telemetry := ?t1\<lparr>actuator_commands := actuator_commands ?t1 @ [?c1, ?c2], clock := Suc (Suc (clock ?t1))\<rparr>,
                 posts := http_log_actuator rid ''Motor_R'' (1 / 2) ''sent'' (http_log_actuator rid ''Motor_L'' (1 / 2) ''sent'' (posts s1)),
                 calls := calls s1 @ [(''log_command'', sessions ?t1), (''log_command'', sessions ?t1)]\<rparr>"
  have n5: "sensor_n (IRLineSensor_init 5) = 5" by (simp add: IRLineSensor_init_def)
  have run: "follow_line_step rid (\<lambda>j. 1 / 2) k [0.9, 0.6, 0.2, 0.6, 0.9] (on, off) s = (Inr (Suc on, off), ?s')"
    unfolding follow_line_step_def Let_def noisy
    using ok1
    by (simp add: sen n5 frame_normalized[simplified] ls sen1 frame_error pid_step_def p1 p
          frame_pid[simplified] frame_track
          MotorPair_drive_def Let_def tel_log_command[where sid = sid]
          del: log_sensors.simps)
  show ?thesis
    apply (rule exI[of _ ?s'])
    using run a1 vl p by (simp add: appended_def)
qed

text \<open>
  C8, as the code has it. With five sensors, white levels 1.0 and black levels 0.0, the
  frame \<open>[0.9, 0.6, 0.2, 0.6, 0.9]\<close> normalizes to
  \<open>[0.9, 0.6, 0.2, 0.6, 0.9] / 1.000001\<close> and the mean that \<open>TrackState.update\<close>
  takes is \<open>0.64 / 1.000001\<close>, further than 0.17 from 0.46.
\<close>

theorem frame_mean_is_not_046:
  "read_normalized (IRLineSensor_init 5) [0.9, 0.6, 0.2, 0.6, 0.9] =
     Inr [900000 / 1000001, 600000 / 1000001, 200000 / 1000001, 600000 / 1000001, 900000 / 1000001]
   \<and> TrackState_avg [900000 / 1000001, 600000 / 1000001, 200000 / 1000001, 600000 / 1000001, 900000 / 1000001]
       = Inr (640000 / 1000001)
   \<and> \<bar>640000 / 1000001 - 0.46\<bar> > (0.17 :: real)"
  by (simp add: frame_normalized[simplified] frame_avg)

text \<open>
  C8, amended. With five sensors, white levels 1.0 and black levels 0.0, a fresh
  controller and every draw of the step at 0.5 (no noise), the frame
  \<open>[0.9, 0.6, 0.2, 0.6, 0.9]\<close> yields normalized values within \<open>1e-6\<close> of
  \<open>[0.9, 0.6, 0.2, 0.6, 0.9]\<close>, lateral error 0, controller output 0 with the
  controller unchanged, the motor commands \<open>(0.5, 0.5)\<close>, and a mean within
  \<open>1e-6\<close> of 0.64, which is on track: the step counts one more on-track step and
  records no event.
\<close>

theorem frame_end_to_end:
  assumes "logger_ok (telemetry s) sid" and "sensor s = IRLineSensor_init 5"
    and "pid s = PIDController_init 0.8 0.0 0.2"
  shows "read_normalized (sensor s) [0.9, 0.6, 0.2, 0.6, 0.9] =
           Inr [900000 / 1000001, 600000 / 1000001, 200000 / 1000001, 600000 / 1000001,
                900000 / 1000001]
       \<and> \<bar>900000 / 1000001 - 0.9\<bar> < (1 / 1000000 :: real)
       \<and> \<bar>600000 / 1000001 - 0.6\<bar> < (1 / 1000000 :: real)
       \<and> \<bar>200000 / 1000001 - 0.2\<bar> < (1 / 1000000 :: real)
       \<and> lateral_error (sensor_n (sensor s))
             [900000 / 1000001, 600000 / 1000001, 200000 / 1000001, 600000 / 1000001,
              900000 / 1000001] = Inr 0
       \<and> PIDController_update 0 0.1 (pid s) = (Inr 0, pid s)
       \<and> TrackState_avg [900000 / 1000001, 600000 / 1000001, 200000 / 1000001,
                          600000 / 1000001, 900000 / 1000001] = Inr (640000 / 1000001)
       \<and> \<bar>640000 / 1000001 - 0.64\<bar> < (1 / 1000000 :: real)
       \<and> TrackState_update [900000 / 1000001, 600000 / 1000001, 200000 / 1000001,
                             600000 / 1000001, 900000 / 1000001] = Inr True
       \<and> (\<exists>s'. follow_line_step rid (\<lambda>j. 1 / 2) k [0.9, 0.6, 0.2, 0.6, 0.9] (on, off) s
                  = (Inr (Suc on, off), s')
             \<and> map r_value (sensor_readings (telemetry s')) =
                 map r_value (sensor_readings (telemetry s)) @
                 [900000 / 1000001, 600000 / 1000001, 200000 / 1000001, 600000 / 1000001,
                  900000 / 1000001]
             \<and> map c_command (actuator_commands (telemetry s')) =
                 map c_command (actuator_commands (telemetry s)) @ [0.5, 0.5]
             \<and> events (telemetry s') = events (telemetry s)
             \<and> pid s' = pid s)"
proof -
  have n5: "sensor_n (IRLineSensor_init 5) = 5" by (simp add: IRLineSensor_init_def)
  show ?thesis
    apply (intro conjI)
    using assms(2) apply (simp add: frame_normalized[simplified])
            apply simp
           apply simp
          apply simp
    using assms(2) apply (simp add: n5 frame_error)
    using assms(3) apply (simp add: frame_pid[simplified])
       apply (rule frame_avg)
      apply simp
     apply (rule frame_track)
    apply (rule frame_step[OF assms])
    done
qed

theorem frame_end_to_end_witness:
  "\<exists>s'. follow_line_step None (\<lambda>j. 1 / 2) 1 [0.9, 0.6, 0.2, 0.6, 0.9] (0, 0)
          (LineFollowerRobot_init 5
             \<lparr>conn = True, session_id = Some 1,
              sessions = [\<lparr>s_id = 1, s_variant_id = 1, s_started_at = 0, s_ended_at = None,
                           s_status = ''running''\<rparr>],
              sensor_readings = [], actuator_commands = [], events = [], clock = 1\<rparr> [])
        = (Inr (1, 0), s')
      \<and> map r_value (sensor_readings (telemetry s')) =
           [900000 / 1000001, 600000 / 1000001, 200000 / 1000001, 600000 / 1000001,
            900000 / 1000001]
      \<and> map c_command (actuator_commands (telemetry s')) = [0.5, 0.5]
      \<and> events (telemetry s') = []"
proof -
  let ?t = "\<lparr>conn = True, session_id = Some 1,
              sessions = [\<lparr>s_id = 1, s_variant_id = 1, s_started_at = 0, s_ended_at = None,
                           s_status = ''running''\<rparr>],
              sensor_readings = [], actuator_commands = [], events = [], clock = 1\<rparr>"
  let ?s = "LineFollowerRobot_init 5 ?t []"
  have h1: "logger_ok (telemetry ?s) 1"
    by (simp add: LineFollowerRobot_init_def logger_ok_def references_session_def)
  have h2: "sensor ?s = IRLineSensor_init 5" by (simp add: LineFollowerRobot_init_def)
  have h3: "pid ?s = PIDController_init 0.8 0.0 0.2" by (simp add: LineFollowerRobot_init_def)
  note r = frame_end_to_end [OF h1 h2 h3, of None 1 0 0, THEN conjunct2, THEN conjunct2, THEN conjunct2,
      THEN conjunct2, THEN conjunct2, THEN conjunct2, THEN conjunct2, THEN conjunct2,
      THEN conjunct2]
  from r obtain s' where
    a: "follow_line_step None (\<lambda>j. 1 / 2) 1 [0.9, 0.6, 0.2, 0.6, 0.9] (0, 0) ?s = (Inr (Suc 0, 0), s')"
    and b: "map r_value (sensor_readings (telemetry s')) =
                 map r_value (sensor_readings (telemetry ?s)) @
                 [900000 / 1000001, 600000 / 1000001, 200000 / 1000001, 600000 / 1000001,
                  900000 / 1000001]"
    and c: "map c_command (actuator_commands (telemetry s')) =
                 map c_command (actuator_commands (telemetry ?s)) @ [0.5, 0.5]"
    and d: "events (telemetry s') = events (telemetry ?s)"
    by (elim exE conjE) (rule that; assumption)
  have a': "follow_line_step None (\<lambda>j. 1 / 2) 1 [0.9, 0.6, 0.2, 0.6, 0.9] (0, 0) ?s = (Inr (1, 0), s')"
    using a by simp
  have b': "map r_value (sensor_readings (telemetry s')) =
                 [900000 / 1000001, 600000 / 1000001, 200000 / 1000001, 600000 / 1000001,
                  900000 / 1000001]"
    using b by (simp add: LineFollowerRobot_init_def)
  have c': "map c_command (actuator_commands (telemetry s')) = [0.5, 0.5]"
    using c by (simp add: LineFollowerRobot_init_def)
  have d': "events (telemetry s') = []"
    using d by (simp add: LineFollowerRobot_init_def)
  show ?thesis
    by (rule exI[of _ s'], intro conjI a' b' c' d')
qed

end
